theory Spec2Isabelle
  imports Main
begin

section \<open>Values, objects and errors\<close>

text \<open>
  The codec of \<^verbatim>\<open>src/contract.ts\<close> works on untyped JavaScript values: strings, numbers,
  arrays, plain objects, functions and \<^verbatim>\<open>undefined\<close>. The numbers that occur are array
  lengths and felt values, so a number is a natural number. A plain object is an
  association list in insertion order with pairwise distinct keys, holding the object's
  own properties; the keys are identifiers of an ABI (not integer-like). A function has
  no content that the codec reads.
\<close>

datatype jsval =
    JUndefined
  | JStr string
  | JNum nat
  | JArr "jsval list"
  | JObj "(string \<times> jsval) list"
  | JFunction

type_synonym Args = "(string \<times> jsval) list"
type_synonym Calldata = "string list"

text \<open>
  A thrown exception is a value: a failed \<^verbatim>\<open>assert\<close> carries its message, the number
  parser fails with a parse error, and reading a property of \<^verbatim>\<open>undefined\<close> is a
  \<^verbatim>\<open>TypeError\<close>.
\<close>

datatype error = Error string | ParseError | TypeError | RangeError

text \<open>
  Every plain object inherits the properties of \<^verbatim>\<open>Object.prototype\<close>. They are functions,
  except \<^verbatim>\<open>__proto__\<close>, which reads as the prototype object itself, an object without
  enumerable properties.
\<close>

definition prototype_names :: "string list" where
  "prototype_names =
     [''constructor'', ''__defineGetter__'', ''__defineSetter__'', ''hasOwnProperty'',
      ''__lookupGetter__'', ''__lookupSetter__'', ''isPrototypeOf'', ''propertyIsEnumerable'',
      ''toString'', ''valueOf'', ''__proto__'', ''toLocaleString'']"

definition inherited :: "string \<Rightarrow> jsval" where
  "inherited k =
     (if k = ''__proto__'' then JObj []
      else if k \<in> set prototype_names then JFunction
      else JUndefined)"

text \<open>An own property of the object.\<close>

definition has_own :: "(string \<times> 'v) list \<Rightarrow> string \<Rightarrow> bool" where
  "has_own obj k = (k \<in> set (map fst obj))"

text \<open>
  \<^verbatim>\<open>obj[k]\<close>: the value of an own property, else of the inherited one, and
  \<^verbatim>\<open>undefined\<close> when there is neither.
\<close>

definition get :: "(string \<times> jsval) list \<Rightarrow> string \<Rightarrow> jsval" where
  "get obj k = (case map_of obj k of None \<Rightarrow> inherited k | Some v \<Rightarrow> v)"

text \<open>\<^verbatim>\<open>k in obj\<close>: an own or an inherited property.\<close>

definition has_key :: "(string \<times> 'v) list \<Rightarrow> string \<Rightarrow> bool" where
  "has_key obj k = (has_own obj k \<or> k \<in> set prototype_names)"

text \<open>
  \<^verbatim>\<open>{...acc, [k]: v}\<close>: an existing key keeps its position and takes the new value, a new
  key is appended.
\<close>

fun spread_set :: "(string \<times> 'v) list \<Rightarrow> string \<Rightarrow> 'v \<Rightarrow> (string \<times> 'v) list" where
  "spread_set [] k v = [(k, v)]"
| "spread_set ((k', v') # obj) k v =
     (if k' = k then (k, v) # obj else (k', v') # spread_set obj k v)"

section \<open>The felt normalizer\<close>

definition digit_val :: "char \<Rightarrow> nat option" where
  "digit_val c =
     (let n = (of_char c :: nat) in
      if 48 \<le> n \<and> n \<le> 57 then Some (n - 48) else None)"

definition hex_val :: "char \<Rightarrow> nat option" where
  "hex_val c =
     (let n = (of_char c :: nat) in
      if 48 \<le> n \<and> n \<le> 57 then Some (n - 48)
      else if 97 \<le> n \<and> n \<le> 102 then Some (n - 87)
      else if 65 \<le> n \<and> n \<le> 70 then Some (n - 55)
      else None)"

text \<open>Reading a numeral left to right in a base, with the value read so far.\<close>

fun parse_digits :: "nat \<Rightarrow> (char \<Rightarrow> nat option) \<Rightarrow> nat \<Rightarrow> string \<Rightarrow> nat option" where
  "parse_digits b dv acc [] = Some acc"
| "parse_digits b dv acc (c # cs) =
     (case dv c of None \<Rightarrow> None | Some d \<Rightarrow> parse_digits b dv (acc * b + d) cs)"

definition parse_numeral :: "string \<Rightarrow> nat option" where
  "parse_numeral s =
     (if take 2 s = ''0x'' \<and> 2 < length s then parse_digits 16 hex_val 0 (drop 2 s)
      else if s \<noteq> [] then parse_digits 10 digit_val 0 s
      else None)"

text \<open>
  Modelled from the spec: \<^verbatim>\<open>toBN\<close> of \<^verbatim>\<open>src/utils/number\<close>, which is imported by
  \<^verbatim>\<open>contract.ts\<close> and is not among the sources. The spec's normalizer accepts decimal
  numerals, \<^verbatim>\<open>0x\<close>-prefixed hexadecimal numerals and values that are numbers already,
  and fails with a parse error for any other input. A felt is an unsigned integer; the
  spec names no width, so none is imposed.
\<close>

fun toBN :: "jsval \<Rightarrow> error + nat" where
  "toBN (JNum n) = Inr n"
| "toBN (JStr s) = (case parse_numeral s of None \<Rightarrow> Inl ParseError | Some n \<Rightarrow> Inr n)"
| "toBN _ = Inl ParseError"

text \<open>
  Modelled from the spec: \<^verbatim>\<open>toString\<close> of the number that \<^verbatim>\<open>toBN\<close> returns, the
  decimal numeral string of the wire format.
\<close>

fun bn_toString :: "nat \<Rightarrow> string" where
  "bn_toString n =
     (if n < 10 then [char_of (48 + n)]
      else bn_toString (n div 10) @ [char_of (48 + n mod 10)])"

declare bn_toString.simps [simp del]

text \<open>
  \<^verbatim>\<open>toNumber\<close> of the number that \<^verbatim>\<open>toBN\<close> returns, an object of the library
  \<^verbatim>\<open>bn.js\<close> that \<^verbatim>\<open>contract.ts\<close> imports: a number of at most 53 bits is returned as it
  is, a larger one is an exception.
\<close>

definition toNumber :: "nat \<Rightarrow> error + nat" where
  "toNumber n =
     (if n < 2 ^ 53 then Inr n
      else Inl (Error ''Number can only safely store up to 53 bits''))"

text \<open>\<^verbatim>\<open>toBN(x).toString()\<close>, the normalization of one value.\<close>

definition toFeltString :: "jsval \<Rightarrow> error + string" where
  "toFeltString x = (case toBN x of Inl e \<Rightarrow> Inl e | Inr n \<Rightarrow> Inr (bn_toString n))"

text \<open>\<^verbatim>\<open>parseFelt\<close> and \<^verbatim>\<open>isFelt\<close>: the non-throwing probe on top of the parser.\<close>

definition parseFelt :: "string \<Rightarrow> error + nat" where
  "parseFelt candidate =
     (case toBN (JStr candidate) of
        Inl e \<Rightarrow> Inl (Error ''Couldnt parse felt'')
      | Inr n \<Rightarrow> Inr n)"

definition isFelt :: "string \<Rightarrow> bool" where
  "isFelt candidate = (case parseFelt candidate of Inl e \<Rightarrow> False | Inr n \<Rightarrow> True)"

section \<open>The calldata encoder\<close>

text \<open>\<^verbatim>\<open>xs.map(f)\<close> where \<^verbatim>\<open>f\<close> may throw: the first exception ends the map.\<close>

fun map_throw :: "('a \<Rightarrow> error + 'b) \<Rightarrow> 'a list \<Rightarrow> error + 'b list" where
  "map_throw f [] = Inr []"
| "map_throw f (x # xs) =
     (case f x of
        Inl e \<Rightarrow> Inl e
      | Inr y \<Rightarrow> (case map_throw f xs of Inl e \<Rightarrow> Inl e | Inr ys \<Rightarrow> Inr (y # ys)))"

text \<open>
  The callback of \<^verbatim>\<open>flatMap\<close> in \<^verbatim>\<open>compileCalldata\<close>: what one value of the mapping
  contributes. An array gives its length and then its elements; an object with a
  \<^verbatim>\<open>type\<close> key gives its other entries; anything else is normalized as one element.
\<close>

definition compileValue :: "jsval \<Rightarrow> error + Calldata" where
  "compileValue v =
     (case v of
        JArr xs \<Rightarrow>
          (case toFeltString (JNum (length xs)) of
             Inl e \<Rightarrow> Inl e
           | Inr l \<Rightarrow> (case map_throw toFeltString xs of Inl e \<Rightarrow> Inl e | Inr ys \<Rightarrow> Inr (l # ys)))
      | JObj ms \<Rightarrow>
          (if has_key ms ''type''
           then map_throw toFeltString (map snd (filter (\<lambda>(k, w). k \<noteq> ''type'') ms))
           else (case toFeltString (JObj ms) of Inl e \<Rightarrow> Inl e | Inr s \<Rightarrow> Inr [s]))
      | _ \<Rightarrow> (case toFeltString v of Inl e \<Rightarrow> Inl e | Inr s \<Rightarrow> Inr [s]))"

text \<open>\<^verbatim>\<open>Object.values(args).flatMap(...)\<close>.\<close>

definition compileCalldata :: "Args \<Rightarrow> error + Calldata" where
  "compileCalldata args =
     (case map_throw compileValue (map snd args) of
        Inl e \<Rightarrow> Inl e
      | Inr parts \<Rightarrow> Inr (concat parts))"

section \<open>The ABI and the contract\<close>

text \<open>
  The type declarations of \<^verbatim>\<open>src/types\<close> are not among the sources; the ABI is modelled
  as the objects the code reads. A field description has a name and a type. An entry of
  the ABI list has a name and a type as well (the type is the entry's kind:
  \<^verbatim>\<open>function\<close>, \<^verbatim>\<open>struct\<close>, ...) and, when the object has them, its inputs, outputs,
  members and mutability tag; a property the object lacks is \<open>None\<close>.
\<close>

record AbiEntry =
  name :: string
  type :: string

record Abi = AbiEntry +
  inputs :: "AbiEntry list option"
  outputs :: "AbiEntry list option"
  members :: "AbiEntry list option"
  stateMutability :: "string option"

text \<open>
  The two kinds of entry that \<^verbatim>\<open>contract.ts\<close> imports by name: a \<^verbatim>\<open>FunctionAbi\<close> has
  inputs, outputs and an optional mutability tag, a \<^verbatim>\<open>StructAbi\<close> has members.
\<close>

definition FunctionAbi ::
    "string \<Rightarrow> AbiEntry list \<Rightarrow> AbiEntry list \<Rightarrow> string option \<Rightarrow> Abi" where
  "FunctionAbi n ins outs mut =
     \<lparr>name = n, type = ''function'', inputs = Some ins, outputs = Some outs, members = None,
      stateMutability = mut\<rparr>"

definition StructAbi :: "string \<Rightarrow> AbiEntry list \<Rightarrow> Abi" where
  "StructAbi n ms =
     \<lparr>name = n, type = ''struct'', inputs = None, outputs = None, members = Some ms,
      stateMutability = None\<rparr>"

text \<open>A field description seen as an element of the decoder: only name and type.\<close>

definition member_element :: "AbiEntry \<Rightarrow> Abi" where
  "member_element m =
     \<lparr>name = name m, type = type m, inputs = None, outputs = None, members = None,
      stateMutability = None\<rparr>"

text \<open>The fields of a \<^verbatim>\<open>Contract\<close> that the codec reads (the provider is external).\<close>

record Contract =
  connectedTo :: "string option"
  abi :: "Abi list"
  structs :: "(string \<times> Abi) list"

text \<open>
  The constructor: the entries of type \<^verbatim>\<open>struct\<close>, reduced from the empty object with
  \<^verbatim>\<open>{...acc, [abiEntry.name]: abiEntry}\<close>.
\<close>

definition build_structs :: "Abi list \<Rightarrow> (string \<times> Abi) list" where
  "build_structs entries =
     foldl (\<lambda>acc abiEntry. spread_set acc (name abiEntry) abiEntry) []
       (filter (\<lambda>abiEntry. type abiEntry = ''struct'') entries)"

definition new_Contract :: "Abi list \<Rightarrow> string option \<Rightarrow> Contract" where
  "new_Contract entries address =
     \<lparr>connectedTo = address, abi = entries, structs = build_structs entries\<rparr>"

section \<open>The argument validator\<close>

datatype CallType = INVOKE | CALL

text \<open>\<^verbatim>\<open>typeof\<close> on the values of the model.\<close>

fun typeof :: "jsval \<Rightarrow> string" where
  "typeof JUndefined = ''undefined''"
| "typeof (JStr s) = ''string''"
| "typeof (JNum n) = ''number''"
| "typeof (JArr xs) = ''object''"
| "typeof (JObj ms) = ''object''"
| "typeof JFunction = ''function''"

fun isArray :: "jsval \<Rightarrow> bool" where
  "isArray (JArr xs) = True"
| "isArray _ = False"

text \<open>\<^verbatim>\<open>'type' in arg\<close> for a value whose \<^verbatim>\<open>typeof\<close> is \<^verbatim>\<open>object\<close>.\<close>

fun has_type_key :: "jsval \<Rightarrow> bool" where
  "has_type_key (JObj ms) = has_key ms ''type''"
| "has_type_key _ = False"

fun get_type :: "jsval \<Rightarrow> jsval" where
  "get_type (JObj ms) = get ms ''type''"
| "get_type _ = JUndefined"

definition assert :: "bool \<Rightarrow> string \<Rightarrow> error + unit" where
  "assert b msg = (if b then Inr () else Inl (Error msg))"

text \<open>\<^verbatim>\<open>xs.forEach(f)\<close> where \<^verbatim>\<open>f\<close> may throw.\<close>

fun forEach :: "('a \<Rightarrow> error + unit) \<Rightarrow> 'a list \<Rightarrow> error + unit" where
  "forEach f [] = Inr ()"
| "forEach f (x # xs) = (case f x of Inl e \<Rightarrow> Inl e | Inr u \<Rightarrow> forEach f xs)"

text \<open>The two assertions on element \<open>i\<close> of an array argument.\<close>

definition validateElement :: "string \<Rightarrow> nat \<times> jsval \<Rightarrow> error + unit" where
  "validateElement inputName p =
     (case p of (i, felt) \<Rightarrow>
        (case assert (typeof felt = ''string'')
                (''arg '' @ inputName @ ''['' @ bn_toString i @
                 ''] should be a felt (string) as part of a felt* (string[])'') of
           Inl e \<Rightarrow> Inl e
         | Inr u \<Rightarrow>
             assert (case felt of JStr s \<Rightarrow> isFelt s | _ \<Rightarrow> False)
               (''arg '' @ inputName @ ''['' @ bn_toString i @
                ''] should be decimal or hexadecimal as part of a felt* (string[])'')))"

text \<open>The body of \<^verbatim>\<open>methodAbi.inputs.forEach\<close>: the checks for one declared input.\<close>

definition validateInput :: "Args \<Rightarrow> AbiEntry \<Rightarrow> error + unit" where
  "validateInput args input =
     (let arg = get args (name input) in
      if arg \<noteq> JUndefined then
        if type input = ''felt'' then
          (case assert (typeof arg = ''string'')
                  (''arg '' @ name input @ '' should be a felt (string)'') of
             Inl e \<Rightarrow> Inl e
           | Inr u \<Rightarrow>
               assert (case arg of JStr s \<Rightarrow> isFelt s | _ \<Rightarrow> False)
                 (''arg '' @ name input @ '' should be decimal or hexadecimal''))
        else if typeof arg = ''object'' \<and> has_type_key arg then
          assert (get_type arg = JStr ''struct'')
            (''arg '' @ name input @ '' should be a struct'')
        else
          (case assert (isArray arg)
                  (''arg '' @ name input @ '' should be a felt* (string[])'') of
             Inl e \<Rightarrow> Inl e
           | Inr u \<Rightarrow>
               (case arg of
                  JArr xs \<Rightarrow> forEach (validateElement (name input)) (zip [0..<length xs] xs)
                | _ \<Rightarrow> Inr ()))
      else Inr ())"

text \<open>The filter that keeps the functions usable for the requested kind of call.\<close>

definition callable :: "CallType \<Rightarrow> Abi \<Rightarrow> bool" where
  "callable t a =
     (if type a \<noteq> ''function'' then False
      else (let isView = (stateMutability a = Some ''view'') in
            if t = INVOKE then \<not> isView else isView))"

definition validateMethodAndArgs :: "Contract \<Rightarrow> CallType \<Rightarrow> string \<Rightarrow> Args \<Rightarrow> error + unit" where
  "validateMethodAndArgs this t method args =
     (let invokeableFunctionNames = map name (filter (callable t) (abi this)) in
      case assert (method \<in> set invokeableFunctionNames)
             ((if t = INVOKE then ''invokeable'' else ''viewable'') @
              '' method not found in abi'') of
        Inl e \<Rightarrow> Inl e
      | Inr u \<Rightarrow>
          (case find (\<lambda>a. name a = method \<and> type a = ''function'') (abi this) of
             None \<Rightarrow> Inl TypeError
           | Some methodAbi \<Rightarrow>
               (case inputs methodAbi of
                  None \<Rightarrow> Inl TypeError
                | Some ins \<Rightarrow> forEach (validateInput args) ins)))"

section \<open>The response decoder\<close>

text \<open>
  The response iterator is the list of the elements not yet consumed.
  \<^verbatim>\<open>responseIterator.next().value\<close> is the next element, and \<^verbatim>\<open>undefined\<close> once the
  iterator is done.
\<close>

fun next_value :: "string list \<Rightarrow> jsval \<times> string list" where
  "next_value [] = (JUndefined, [])"
| "next_value (x # xs) = (JStr x, xs)"

text \<open>
  The loop of the \<^verbatim>\<open>felt*\<close> branch: \<^verbatim>\<open>while (arr.length < n) arr.push(next().value)\<close>.
  An array has at most \<open>2 ^ 32 - 1\<close> elements: \<^verbatim>\<open>push\<close> on an array of that length is a
  \<^verbatim>\<open>RangeError\<close>.
\<close>

function feltArrayLoop ::
    "nat \<Rightarrow> string list \<Rightarrow> jsval list \<Rightarrow> error + jsval list \<times> string list" where
  "feltArrayLoop n it arr =
     (if length arr < n
      then (case next_value it of
              (v, it') \<Rightarrow>
                if length arr < 2 ^ 32 - 1 then feltArrayLoop n it' (arr @ [v])
                else Inl RangeError)
      else Inr (arr, it))"
  by pat_completeness auto
termination
  by (relation "measure (\<lambda>(n, it, arr). n - length arr)") auto

declare feltArrayLoop.simps [simp del]

text \<open>
  \<^verbatim>\<open>parseResponseField\<close> with the iterator passed in and returned. The recursion through
  the struct registry need not end (a struct may have a member of its own type), so the
  first argument bounds the nesting depth and \<open>None\<close> says that the bound was reached.
  \<open>reduceEntries\<close> is the \<^verbatim>\<open>entries.reduce\<close> of the last statement, from the accumulator
  built so far. \<^verbatim>\<open>element.type in this.structs\<close> holds for an inherited property too,
  which has no members.
\<close>

fun parseResponseField ::
    "nat \<Rightarrow> (string \<times> Abi) list \<Rightarrow> Abi \<Rightarrow> string list \<Rightarrow> (string \<times> jsval) list option
      \<Rightarrow> (error + jsval \<times> string list) option"
  and reduceEntries ::
    "nat \<Rightarrow> (string \<times> Abi) list \<Rightarrow> AbiEntry list \<Rightarrow> string list \<Rightarrow> (string \<times> jsval) list
      \<Rightarrow> (error + jsval \<times> string list) option"
where
  "parseResponseField 0 reg element it currentAcc = None"
| "parseResponseField (Suc depth) reg element it currentAcc =
     (if type element = ''felt'' then Some (Inr (next_value it))
      else if type element = ''felt*'' then
        (let lengthFieldInHex =
               (case currentAcc of
                  None \<Rightarrow> JUndefined
                | Some acc \<Rightarrow> get acc (name element @ ''_len''))
         in case toBN lengthFieldInHex of
              Inl e \<Rightarrow> Some (Inl e)
            | Inr bn \<Rightarrow>
                (case toNumber bn of
                   Inl e \<Rightarrow> Some (Inl e)
                 | Inr lengthFieldInNumber \<Rightarrow>
                     (case feltArrayLoop lengthFieldInNumber it [] of
                        Inl e \<Rightarrow> Some (Inl e)
                      | Inr (arr, it') \<Rightarrow> Some (Inr (JArr arr, it')))))
      else
        (case (if has_key reg (type element)
               then (case map_of reg (type element) of
                       Some s \<Rightarrow> members s
                     | None \<Rightarrow> None)
               else (case outputs element of Some os \<Rightarrow> Some os | None \<Rightarrow> Some [])) of
           None \<Rightarrow> Some (Inl TypeError)
         | Some entries \<Rightarrow> reduceEntries depth reg entries it []))"
| "reduceEntries depth reg [] it acc = Some (Inr (JObj acc, it))"
| "reduceEntries depth reg (member # entries) it acc =
     (case parseResponseField depth reg (member_element member) it (Some acc) of
        None \<Rightarrow> None
      | Some (Inl e) \<Rightarrow> Some (Inl e)
      | Some (Inr (v, it')) \<Rightarrow> reduceEntries depth reg entries it' (spread_set acc (name member) v))"

text \<open>
  \<^verbatim>\<open>parseResponse\<close>: the first entry with the method's name, of any type, is decoded from
  a fresh iterator over the response; \<^verbatim>\<open>flat()\<close> leaves a list of strings as it is.
\<close>

definition parseResponse ::
    "nat \<Rightarrow> Contract \<Rightarrow> string \<Rightarrow> string list \<Rightarrow> (error + jsval) option" where
  "parseResponse depth this method response =
     (case find (\<lambda>a. name a = method) (abi this) of
        None \<Rightarrow> Some (Inl TypeError)
      | Some methodAbi \<Rightarrow>
          (case parseResponseField depth (structs this) methodAbi response None of
             None \<Rightarrow> None
           | Some (Inl e) \<Rightarrow> Some (Inl e)
           | Some (Inr (v, it')) \<Rightarrow> Some (Inr v)))"

section \<open>Lemmas on the normalizer and the encoder\<close>

lemma map_throw_append:
  "map_throw f (xs @ ys) =
     (case map_throw f xs of
        Inl e \<Rightarrow> Inl e
      | Inr a \<Rightarrow> (case map_throw f ys of Inl e \<Rightarrow> Inl e | Inr b \<Rightarrow> Inr (a @ b)))"
  by (induction xs) (auto split: sum.splits)

lemma map_throw_list_all2:
  "list_all2 (\<lambda>x y. f x = Inr y) xs ys \<Longrightarrow> map_throw f xs = Inr ys"
  by (induction xs ys rule: list_all2_induct) auto

lemma map_throw_Inr_list_all2:
  "map_throw f xs = Inr ys \<Longrightarrow> list_all2 (\<lambda>x y. f x = Inr y) xs ys"
  by (induction xs arbitrary: ys) (auto split: sum.splits)

lemma compileCalldata_Nil: "compileCalldata [] = Inr []"
  by (simp add: compileCalldata_def)

lemma compileCalldata_Cons:
  "compileCalldata ((k, v) # rest) =
     (case compileValue v of
        Inl e \<Rightarrow> Inl e
      | Inr a \<Rightarrow> (case compileCalldata rest of Inl e \<Rightarrow> Inl e | Inr b \<Rightarrow> Inr (a @ b)))"
  by (simp add: compileCalldata_def split: sum.splits)

lemma compileCalldata_append:
  "compileCalldata (xs @ ys) =
     (case compileCalldata xs of
        Inl e \<Rightarrow> Inl e
      | Inr a \<Rightarrow> (case compileCalldata ys of Inl e \<Rightarrow> Inl e | Inr b \<Rightarrow> Inr (a @ b)))"
  by (simp add: compileCalldata_def map_throw_append split: sum.splits)

lemma compileCalldata_insert:
  assumes "compileCalldata pre = Inr a" and "compileValue v = Inr b"
    and "compileCalldata post = Inr c"
  shows "compileCalldata (pre @ (k, v) # post) = Inr (a @ b @ c)"
  using assms by (simp add: compileCalldata_append compileCalldata_Cons)

lemma bn_toString_small: "n < 10 \<Longrightarrow> bn_toString n = [char_of (48 + n)]"
  by (simp add: bn_toString.simps)

lemma bn_toString_large:
  "\<not> n < 10 \<Longrightarrow> bn_toString n = bn_toString (n div 10) @ [char_of (48 + n mod 10)]"
  by (subst bn_toString.simps) simp

lemma digit_val_char_of: "d < 10 \<Longrightarrow> digit_val (char_of (48 + d)) = Some d"
  by (simp add: digit_val_def Let_def)

lemma parse_digits_snoc:
  "parse_digits b dv acc (cs @ [c]) =
     (case parse_digits b dv acc cs of
        None \<Rightarrow> None
      | Some m \<Rightarrow> (case dv c of None \<Rightarrow> None | Some d \<Rightarrow> Some (m * b + d)))"
  by (induction cs arbitrary: acc) (auto split: option.splits)

lemma parse_digits_bn_toString: "parse_digits 10 digit_val 0 (bn_toString n) = Some n"
proof (induction n rule: bn_toString.induct)
  case (1 n)
  show ?case
  proof (cases "n < 10")
    case True
    then show ?thesis by (simp add: bn_toString_small digit_val_char_of)
  next
    case False
    have "n mod 10 < 10" by simp
    with False 1 show ?thesis
      by (simp add: bn_toString_large parse_digits_snoc digit_val_char_of)
  qed
qed

lemma bn_toString_digits: "c \<in> set (bn_toString n) \<Longrightarrow> digit_val c \<noteq> None"
proof (induction n rule: bn_toString.induct)
  case (1 n)
  show ?case
  proof (cases "n < 10")
    case True
    with 1(2) show ?thesis by (simp add: bn_toString_small digit_val_char_of)
  next
    case False
    have "n mod 10 < 10" by simp
    with False 1 show ?thesis
      by (auto simp add: bn_toString_large digit_val_char_of)
  qed
qed

lemma bn_toString_not_Nil: "bn_toString n \<noteq> []"
  by (cases "n < 10") (simp_all add: bn_toString_small bn_toString_large)

lemma parse_numeral_digits:
  assumes "s \<noteq> []" and "\<forall>c \<in> set s. digit_val c \<noteq> None"
  shows "parse_numeral s = parse_digits 10 digit_val 0 s"
proof -
  have x: "digit_val CHR ''x'' = None" by (simp add: digit_val_def)
  have "take 2 s \<noteq> ''0x''"
  proof
    assume "take 2 s = ''0x''"
    then have "CHR ''x'' \<in> set (take 2 s)" by simp
    then have "CHR ''x'' \<in> set s" by (rule in_set_takeD)
    with assms(2) x show False by blast
  qed
  with assms(1) show ?thesis by (simp add: parse_numeral_def)
qed

lemma toFeltString_bn_toString: "toFeltString (JStr (bn_toString n)) = Inr (bn_toString n)"
  using parse_numeral_digits[of "bn_toString n"] bn_toString_digits[of _ n]
  by (simp add: toFeltString_def bn_toString_not_Nil parse_digits_bn_toString)


lemma toFeltString_numeral: "toFeltString x = Inr s \<Longrightarrow> \<exists>n. s = bn_toString n"
  by (auto simp: toFeltString_def split: sum.splits)

lemma map_throw_toFeltString_numerals:
  "map_throw toFeltString xs = Inr ys \<Longrightarrow> s \<in> set ys \<Longrightarrow> \<exists>n. s = bn_toString n"
proof (induction xs arbitrary: ys)
  case Nil
  then show ?case by simp
next
  case (Cons x xs)
  then show ?case by (auto split: sum.splits dest: toFeltString_numeral)
qed

lemma compileValue_numerals:
  "compileValue v = Inr cd \<Longrightarrow> s \<in> set cd \<Longrightarrow> \<exists>n. s = bn_toString n"
  by (cases v)
    (auto simp: compileValue_def split: sum.splits if_splits
      dest: toFeltString_numeral map_throw_toFeltString_numerals)

lemma compileCalldata_numerals:
  "compileCalldata args = Inr cd \<Longrightarrow> s \<in> set cd \<Longrightarrow> \<exists>n. s = bn_toString n"
proof (induction args arbitrary: cd)
  case Nil
  then show ?case by (simp add: compileCalldata_Nil)
next
  case (Cons p args)
  obtain k v where p: "p = (k, v)" by (cases p)
  from Cons.prems p show ?case
    by (auto simp: compileCalldata_Cons split: sum.splits
          dest: compileValue_numerals Cons.IH)
qed

lemma struct_not_numeral: "bn_toString n \<noteq> ''struct''"
proof
  assume "bn_toString n = ''struct''"
  then have "CHR ''s'' \<in> set (bn_toString n)" by simp
  then have "digit_val CHR ''s'' \<noteq> None" by (rule bn_toString_digits)
  then show False by (simp add: digit_val_def)
qed

lemma compileValue_JArr:
  "list_all2 (\<lambda>x y. toFeltString x = Inr y) xs ys \<Longrightarrow>
     compileValue (JArr xs) = Inr (bn_toString (length xs) # ys)"
  by (simp add: compileValue_def toFeltString_def map_throw_list_all2)

lemma compileValue_struct:
  "has_key ms ''type'' \<Longrightarrow>
     compileValue (JObj ms) =
       map_throw toFeltString (map snd (filter (\<lambda>(k, w). k \<noteq> ''type'') ms))"
  by (simp add: compileValue_def)

lemma get_distinct: "distinct (map fst obj) \<Longrightarrow> (k, v) \<in> set obj \<Longrightarrow> get obj k = v"
  by (simp add: get_def)

lemma list_all2_get_members:
  assumes "distinct (map fst ms)"
    and "map fst (filter P ms) = map name declared"
    and "list_all2 (\<lambda>x y. f x = Inr y) (map snd (filter P ms)) ys"
  shows "list_all2 (\<lambda>m y. f (get ms (name m)) = Inr y) declared ys"
proof -
  have "map (get ms) (map fst (filter P ms)) = map snd (filter P ms)"
    using assms(1) by (auto simp: get_distinct)
  with assms(2) have "map snd (filter P ms) = map (\<lambda>m. get ms (name m)) declared"
    by (simp add: comp_def)
  with assms(3) show ?thesis
    by (simp add: list_all2_map1)
qed

section \<open>The claims on the encoder\<close>

text \<open>
  Claim C2. Whenever a value of the mapping is a sequence of felt values, the encoder
  appends the sequence's length as one element first and then the normalized elements in
  order: with \<open>ys\<close> the normalized elements of \<open>xs\<close>, and \<open>a\<close> and \<open>c\<close> the calldata of
  the arguments before and after, the calldata is \<open>a\<close>, the length, \<open>ys\<close>, \<open>c\<close>. An
  empty sequence contributes the single element \<^verbatim>\<open>"0"\<close>, and the sequence
  \<^verbatim>\<open>["1","2","3"]\<close> gives \<^verbatim>\<open>["3","1","2","3"]\<close>.
\<close>

theorem compileCalldata_array_length_prefix:
  "(list_all2 (\<lambda>x y. toFeltString x = Inr y) xs ys \<longrightarrow>
      compileCalldata pre = Inr a \<longrightarrow> compileCalldata post = Inr c \<longrightarrow>
      compileCalldata (pre @ (k, JArr xs) # post) = Inr (a @ bn_toString (length xs) # ys @ c))
   \<and> compileCalldata [(''data'', JArr [])] = Inr [''0'']
   \<and> compileCalldata [(''data'', JArr [JStr ''1'', JStr ''2'', JStr ''3''])] =
       Inr [''3'', ''1'', ''2'', ''3'']"
proof (intro conjI impI)
  assume "list_all2 (\<lambda>x y. toFeltString x = Inr y) xs ys"
    and "compileCalldata pre = Inr a" and "compileCalldata post = Inr c"
  then show "compileCalldata (pre @ (k, JArr xs) # post) =
      Inr (a @ bn_toString (length xs) # ys @ c)"
    using compileCalldata_insert[of pre a "JArr xs" "bn_toString (length xs) # ys" post c k]
    by (simp add: compileValue_JArr)
next
  show "compileCalldata [(''data'', JArr [])] = Inr [''0'']"
    by code_simp
next
  show "compileCalldata [(''data'', JArr [JStr ''1'', JStr ''2'', JStr ''3''])] =
      Inr [''3'', ''1'', ''2'', ''3'']"
    by code_simp
qed

theorem compileCalldata_array_length_prefix_witness:
  "list_all2 (\<lambda>x y. toFeltString x = Inr y) [JStr ''0x10'', JStr ''7''] [''16'', ''7'']
   \<and> compileCalldata [(''to'', JStr ''5'')] = Inr [''5'']
   \<and> compileCalldata [(''n'', JNum 2)] = Inr [''2'']
   \<and> compileCalldata ([(''to'', JStr ''5'')] @ (''data'', JArr [JStr ''0x10'', JStr ''7'']) #
        [(''n'', JNum 2)]) =
       Inr ([''5''] @ bn_toString (length [JStr ''0x10'', JStr ''7'']) # [''16'', ''7''] @ [''2''])"
proof -
  have h1: "list_all2 (\<lambda>x y. toFeltString x = Inr y) [JStr ''0x10'', JStr ''7''] [''16'', ''7'']"
    by code_simp
  have h2: "compileCalldata [(''to'', JStr ''5'')] = Inr [''5'']"
    by code_simp
  have h3: "compileCalldata [(''n'', JNum 2)] = Inr [''2'']"
    by code_simp
  from compileCalldata_array_length_prefix
    [of "[JStr ''0x10'', JStr ''7'']" "[''16'', ''7'']" "[(''to'', JStr ''5'')]" "[''5'']"
        "[(''n'', JNum 2)]" "[''2'']" "''data''"]
  have "compileCalldata ([(''to'', JStr ''5'')] @ (''data'', JArr [JStr ''0x10'', JStr ''7'']) #
        [(''n'', JNum 2)]) =
       Inr ([''5''] @ bn_toString (length [JStr ''0x10'', JStr ''7'']) # [''16'', ''7''] @ [''2''])"
    using h1 h2 h3 by blast
  with h1 h2 h3 show ?thesis by blast
qed

text \<open>
  Claim C5, as stated: the members of a struct-tagged value are appended in the struct's
  declared member order. The encoder has no access to a struct declaration; it appends
  the members in the order in which the value lists them. For the struct \<^verbatim>\<open>Point\<close>
  declared with the members \<^verbatim>\<open>x\<close>, \<^verbatim>\<open>y\<close>, the value that lists \<^verbatim>\<open>y: "2"\<close> before
  \<^verbatim>\<open>x: "1"\<close> passes validation and is encoded as \<^verbatim>\<open>["2","1"]\<close>, where the declared order
  gives \<^verbatim>\<open>["1","2"]\<close>.
\<close>

theorem compileCalldata_struct_order_counterexample:
  "map_of (structs (new_Contract
      [StructAbi ''Point'' [\<lparr>name = ''x'', type = ''felt''\<rparr>, \<lparr>name = ''y'', type = ''felt''\<rparr>],
       FunctionAbi ''move'' [\<lparr>name = ''p'', type = ''Point''\<rparr>] [] None] None)) ''Point'' =
     Some (StructAbi ''Point'' [\<lparr>name = ''x'', type = ''felt''\<rparr>, \<lparr>name = ''y'', type = ''felt''\<rparr>])
   \<and> validateMethodAndArgs (new_Contract
      [StructAbi ''Point'' [\<lparr>name = ''x'', type = ''felt''\<rparr>, \<lparr>name = ''y'', type = ''felt''\<rparr>],
       FunctionAbi ''move'' [\<lparr>name = ''p'', type = ''Point''\<rparr>] [] None] None) INVOKE ''move''
      [(''p'', JObj [(''type'', JStr ''struct''), (''y'', JStr ''2''), (''x'', JStr ''1'')])] = Inr ()
   \<and> get [(''type'', JStr ''struct''), (''y'', JStr ''2''), (''x'', JStr ''1'')] ''x'' = JStr ''1''
   \<and> get [(''type'', JStr ''struct''), (''y'', JStr ''2''), (''x'', JStr ''1'')] ''y'' = JStr ''2''
   \<and> compileCalldata
        [(''p'', JObj [(''type'', JStr ''struct''), (''y'', JStr ''2''), (''x'', JStr ''1'')])] =
       Inr [''2'', ''1'']
   \<and> [''2'', ''1''] \<noteq> [''1'', ''2'']"
  by code_simp

text \<open>
  Claim C5, amended: for a struct-tagged value (an object with a \<^verbatim>\<open>type\<close> key) the encoder
  appends the normalized value of every member except the type tag, in the order in
  which the value itself lists its members: with \<open>ys\<close> the normalized values of the
  members other than the tag, the calldata is \<open>a\<close>, \<open>ys\<close>, \<open>c\<close>. There is one element for
  each member other than the tag, and the tag \<^verbatim>\<open>struct\<close> is no element of the calldata.
  When the value lists the members \<open>declared\<close> of a struct in their declared order, \<open>ys\<close>
  are the normalized values of the declared members in that order.
\<close>

theorem compileCalldata_struct_members:
  "has_key ms ''type'' \<longrightarrow>
   list_all2 (\<lambda>x y. toFeltString x = Inr y)
     (map snd (filter (\<lambda>(m, w). m \<noteq> ''type'') ms)) ys \<longrightarrow>
   compileCalldata pre = Inr a \<longrightarrow> compileCalldata post = Inr c \<longrightarrow>
     compileCalldata (pre @ (k, JObj ms) # post) = Inr (a @ ys @ c)
     \<and> length ys = length (filter (\<lambda>(m, w). m \<noteq> ''type'') ms)
     \<and> ''struct'' \<notin> set (a @ ys @ c)
     \<and> (distinct (map fst ms) \<longrightarrow>
        map fst (filter (\<lambda>(m, w). m \<noteq> ''type'') ms) = map name declared \<longrightarrow>
          list_all2 (\<lambda>m y. toFeltString (get ms (name m)) = Inr y) declared ys)"
proof (intro impI)
  assume tag: "has_key ms ''type''"
    and ys: "list_all2 (\<lambda>x y. toFeltString x = Inr y)
      (map snd (filter (\<lambda>(m, w). m \<noteq> ''type'') ms)) ys"
    and pre: "compileCalldata pre = Inr a" and post: "compileCalldata post = Inr c"
  from tag ys have v: "compileValue (JObj ms) = Inr ys"
    by (simp add: compileValue_struct map_throw_list_all2)
  from pre v post have all: "compileCalldata (pre @ (k, JObj ms) # post) = Inr (a @ ys @ c)"
    by (rule compileCalldata_insert)
  from ys have len: "length ys = length (filter (\<lambda>(m, w). m \<noteq> ''type'') ms)"
    by (simp add: list_all2_lengthD[symmetric])
  have notag: "''struct'' \<notin> set (a @ ys @ c)"
  proof
    assume "''struct'' \<in> set (a @ ys @ c)"
    with all obtain n where "''struct'' = bn_toString n"
      using compileCalldata_numerals by blast
    then show False using struct_not_numeral[of n] by simp
  qed
  have decl: "distinct (map fst ms) \<longrightarrow>
        map fst (filter (\<lambda>(m, w). m \<noteq> ''type'') ms) = map name declared \<longrightarrow>
          list_all2 (\<lambda>m y. toFeltString (get ms (name m)) = Inr y) declared ys"
    using ys by (blast intro: list_all2_get_members)
  from all len notag decl
  show "compileCalldata (pre @ (k, JObj ms) # post) = Inr (a @ ys @ c)
     \<and> length ys = length (filter (\<lambda>(m, w). m \<noteq> ''type'') ms)
     \<and> ''struct'' \<notin> set (a @ ys @ c)
     \<and> (distinct (map fst ms) \<longrightarrow>
        map fst (filter (\<lambda>(m, w). m \<noteq> ''type'') ms) = map name declared \<longrightarrow>
          list_all2 (\<lambda>m y. toFeltString (get ms (name m)) = Inr y) declared ys)"
    by (intro conjI)
qed

theorem compileCalldata_struct_members_witness:
  "has_key [(''type'', JStr ''struct''), (''x'', JStr ''0x0a''), (''y'', JNum 7)] ''type''
   \<and> list_all2 (\<lambda>x y. toFeltString x = Inr y)
       (map snd (filter (\<lambda>(m, w). m \<noteq> ''type'')
          [(''type'', JStr ''struct''), (''x'', JStr ''0x0a''), (''y'', JNum 7)]))
       [''10'', ''7'']
   \<and> compileCalldata [(''to'', JStr ''5'')] = Inr [''5'']
   \<and> compileCalldata [(''n'', JStr ''2'')] = Inr [''2'']
   \<and> distinct (map fst [(''type'', JStr ''struct''), (''x'', JStr ''0x0a''), (''y'', JNum 7)])
   \<and> map fst (filter (\<lambda>(m, w). m \<noteq> ''type'')
         [(''type'', JStr ''struct''), (''x'', JStr ''0x0a''), (''y'', JNum 7)]) =
       map name [\<lparr>name = ''x'', type = ''felt''\<rparr>, \<lparr>name = ''y'', type = ''felt''\<rparr>]
   \<and> compileCalldata ([(''to'', JStr ''5'')] @
        (''p'', JObj [(''type'', JStr ''struct''), (''x'', JStr ''0x0a''), (''y'', JNum 7)]) #
        [(''n'', JStr ''2'')]) = Inr ([''5''] @ [''10'', ''7''] @ [''2''])
   \<and> length [''10'', ''7''] =
       length (filter (\<lambda>(m, w). m \<noteq> ''type'')
         [(''type'', JStr ''struct''), (''x'', JStr ''0x0a''), (''y'', JNum 7)])
   \<and> ''struct'' \<notin> set ([''5''] @ [''10'', ''7''] @ [''2''])
   \<and> list_all2
       (\<lambda>m y. toFeltString
          (get [(''type'', JStr ''struct''), (''x'', JStr ''0x0a''), (''y'', JNum 7)] (name m)) =
          Inr y)
       [\<lparr>name = ''x'', type = ''felt''\<rparr>, \<lparr>name = ''y'', type = ''felt''\<rparr>] [''10'', ''7'']"
proof -
  let ?ms = "[(''type'', JStr ''struct''), (''x'', JStr ''0x0a''), (''y'', JNum 7)]"
  let ?decl = "[\<lparr>name = ''x'', type = ''felt''\<rparr>, \<lparr>name = ''y'', type = ''felt''\<rparr>]"
  have h1: "has_key ?ms ''type''"
    by code_simp
  have h2: "list_all2 (\<lambda>x y. toFeltString x = Inr y)
       (map snd (filter (\<lambda>(m, w). m \<noteq> ''type'') ?ms)) [''10'', ''7'']"
    by code_simp
  have h3: "compileCalldata [(''to'', JStr ''5'')] = Inr [''5'']"
    by code_simp
  have h4: "compileCalldata [(''n'', JStr ''2'')] = Inr [''2'']"
    by code_simp
  have h5: "distinct (map fst ?ms)"
    by simp
  have h6: "map fst (filter (\<lambda>(m, w). m \<noteq> ''type'') ?ms) = map name ?decl"
    by simp
  from compileCalldata_struct_members
    [of ?ms "[''10'', ''7'']" "[(''to'', JStr ''5'')]" "[''5'']" "[(''n'', JStr ''2'')]" "[''2'']"
        "''p''" ?decl]
    h1 h2 h3 h4 h5 h6
  show ?thesis by blast
qed

text \<open>
  Claim C9. The encoder takes the argument mapping alone: neither the ABI nor the struct
  registry is a parameter of \<open>compileCalldata\<close>, and the argument names are not read. Two
  mappings with the same sequence of values have the same calldata. A struct value is
  encoded from the members it has, whatever a struct declaration lists: when its
  members other than the tag are numbers \<open>ns\<close>, the calldata is their decimal numerals,
  so a value that omits a declared member or carries an extra one is encoded without an
  error.
\<close>

theorem compileCalldata_values_only:
  "(map snd args1 = map snd args2 \<longrightarrow> compileCalldata args1 = compileCalldata args2)
   \<and> (list_all2 (\<lambda>w n. toBN w = Inr n)
         (map snd (filter (\<lambda>(m, w). m \<noteq> ''type'') ms)) ns \<longrightarrow>
        compileCalldata [(k, JObj ((''type'', JStr ''struct'') # ms))] =
          Inr (map bn_toString ns))"
proof (intro conjI impI)
  assume "map snd args1 = map snd args2"
  then show "compileCalldata args1 = compileCalldata args2"
    by (simp add: compileCalldata_def)
next
  assume "list_all2 (\<lambda>w n. toBN w = Inr n)
    (map snd (filter (\<lambda>(m, w). m \<noteq> ''type'') ms)) ns"
  then have "list_all2 (\<lambda>x y. toFeltString x = Inr y)
    (map snd (filter (\<lambda>(m, w). m \<noteq> ''type'') ms)) (map bn_toString ns)"
    by (simp add: list_all2_map2 toFeltString_def list_all2_mono)
  then have "map_throw toFeltString (map snd (filter (\<lambda>(m, w). m \<noteq> ''type'') ms)) =
      Inr (map bn_toString ns)"
    by (rule map_throw_list_all2)
  then show "compileCalldata [(k, JObj ((''type'', JStr ''struct'') # ms))] =
      Inr (map bn_toString ns)"
    by (simp add: compileCalldata_def compileValue_def has_key_def has_own_def)
qed

theorem compileCalldata_values_only_witness:
  "map snd [(''amount'', JStr ''0x10'')] = map snd [(''recipient'', JStr ''0x10'')]
   \<and> compileCalldata [(''amount'', JStr ''0x10'')] =
       compileCalldata [(''recipient'', JStr ''0x10'')]
   \<and> list_all2 (\<lambda>w n. toBN w = Inr n)
       (map snd (filter (\<lambda>(m, w). m \<noteq> ''type'') [(''x'', JStr ''1''), (''z'', JStr ''3'')]))
       [1, 3]
   \<and> compileCalldata
        [(''p'', JObj ((''type'', JStr ''struct'') # [(''x'', JStr ''1''), (''z'', JStr ''3'')]))] =
       Inr (map bn_toString [1, 3])"
proof -
  have h1: "map snd [(''amount'', JStr ''0x10'')] = map snd [(''recipient'', JStr ''0x10'')]"
    by simp
  have h2: "list_all2 (\<lambda>w n. toBN w = Inr n)
       (map snd (filter (\<lambda>(m, w). m \<noteq> ''type'') [(''x'', JStr ''1''), (''z'', JStr ''3'')]))
       [1, 3]"
    by code_simp
  from compileCalldata_values_only
    [of "[(''amount'', JStr ''0x10'')]" "[(''recipient'', JStr ''0x10'')]"
        "[(''x'', JStr ''1''), (''z'', JStr ''3'')]" "[1, 3]" "''p''"]
    h1 h2
  show ?thesis by blast
qed

section \<open>Lemmas on the decoder\<close>

lemma feltArrayLoop_eq:
  "n < 2 ^ 32 \<Longrightarrow>
   feltArrayLoop n it arr =
     Inr (arr @ map JStr (take (n - length arr) it) @
            replicate (n - length arr - length it) JUndefined,
          drop (n - length arr) it)"
proof (induction n it arr rule: feltArrayLoop.induct)
  case (1 n it arr)
  show ?case
  proof (cases "length arr < n")
    case False
    then show ?thesis by (simp add: feltArrayLoop.simps)
  next
    case True
    then obtain k where k: "n - length arr = Suc k" by (cases "n - length arr") auto
    from k have k1: "n - Suc (length arr) = k" by simp
    from k have k2: "\<And>m. n - Suc (length arr + m) = k - m" by simp
    from True "1.prems" have room: "length arr < 2 ^ 32 - 1" by simp
    show ?thesis
    proof (cases it)
      case Nil
      have "feltArrayLoop n it arr = feltArrayLoop n [] (arr @ [JUndefined])"
        using True Nil room by (subst feltArrayLoop.simps) simp
      also have "\<dots> = Inr ((arr @ [JUndefined]) @
          map JStr (take (n - length (arr @ [JUndefined])) []) @
          replicate (n - length (arr @ [JUndefined]) - length ([] :: string list)) JUndefined,
        drop (n - length (arr @ [JUndefined])) [])"
        using "1.IH"[OF True _ room "1.prems", of JUndefined "[]"] Nil by simp
      finally show ?thesis using Nil k k1 by (simp add: replicate_app_Cons_same)
    next
      case (Cons x xs)
      have "feltArrayLoop n it arr = feltArrayLoop n xs (arr @ [JStr x])"
        using True Cons room by (subst feltArrayLoop.simps) simp
      also have "\<dots> = Inr ((arr @ [JStr x]) @
          map JStr (take (n - length (arr @ [JStr x])) xs) @
          replicate (n - length (arr @ [JStr x]) - length xs) JUndefined,
        drop (n - length (arr @ [JStr x])) xs)"
        using "1.IH"[OF True _ room "1.prems", of "JStr x" xs] Cons by simp
      finally show ?thesis using Cons k k1 k2 by simp
    qed
  qed
qed

lemma feltArrayLoop_start:
  "n < 2 ^ 32 \<Longrightarrow>
   feltArrayLoop n it [] =
     Inr (map JStr (take n it) @ replicate (n - length it) JUndefined, drop n it)"
  by (simp add: feltArrayLoop_eq)

lemma toNumber_small: "n < 2 ^ 32 \<Longrightarrow> toNumber n = Inr n"
proof -
  assume "n < 2 ^ 32"
  moreover have "(2 :: nat) ^ 32 < 2 ^ 53" by simp
  ultimately have "n < 2 ^ 53" by (rule less_trans)
  then show ?thesis by (simp add: toNumber_def)
qed

lemma parseResponseField_array_eq:
  assumes "type element = ''felt*''"
    and "toBN (get acc (name element @ ''_len'')) = Inr n"
    and "n < 2 ^ 32"
  shows "parseResponseField (Suc depth) reg element it (Some acc) =
     Some (Inr (JArr (map JStr (take n it) @ replicate (n - length it) JUndefined), drop n it))"
  using assms by (simp add: feltArrayLoop_start toNumber_small)

lemma inherited_not_felt: "toBN (inherited k) = Inl ParseError"
  by (simp add: inherited_def)

lemma get_not_own: "\<not> has_own obj k \<Longrightarrow> toBN (get obj k) = Inl ParseError"
  by (simp add: get_def has_own_def map_of_eq_None_iff[symmetric] inherited_not_felt)


lemma parseResponseField_array_no_len:
  assumes "type element = ''felt*''"
    and "\<not> has_own acc (name element @ ''_len'')"
  shows "parseResponseField (Suc depth) reg element it (Some acc) = Some (Inl ParseError)"
  using assms by (simp add: get_not_own)

lemma parseResponse_2: "parseResponse 2 = parseResponse (Suc (Suc 0))"
  by (simp add: numeral_2_eq_2)

lemma parseResponse_3: "parseResponse 3 = parseResponse (Suc (Suc (Suc 0)))"
  by (simp add: numeral_3_eq_3)

lemma replicate_numeral_pred: "replicate (numeral k) x = x # replicate (pred_numeral k) x"
  by (simp add: numeral_eq_Suc)

lemmas decode_eval =
  parseResponse_def new_Contract_def build_structs_def FunctionAbi_def StructAbi_def
  member_element_def has_key_def has_own_def prototype_names_def get_def inherited_def
  toNumber_def feltArrayLoop_start parse_numeral_def digit_val_def hex_val_def
  parseResponse_2 parseResponse_3 replicate_numeral_pred

lemma keys_spread_set: "fst ` set (spread_set obj k v) = insert k (fst ` set obj)"
  by (induction obj k v rule: spread_set.induct) auto

lemma reduceEntries_Cons_felt_array:
  assumes "type m = ''felt*''"
    and "toBN (get acc (name m @ ''_len'')) = Inr n"
    and "n < 2 ^ 32"
  shows "reduceEntries (Suc depth) reg (m # rest) it acc =
     reduceEntries (Suc depth) reg rest (drop n it)
       (spread_set acc (name m)
          (JArr (map JStr (take n it) @ replicate (n - length it) JUndefined)))"
proof -
  have "type (member_element m) = ''felt*''" and "name (member_element m) = name m"
    using assms(1) by (simp_all add: member_element_def)
  with assms(2,3) have "parseResponseField (Suc depth) reg (member_element m) it (Some acc) =
     Some (Inr (JArr (map JStr (take n it) @ replicate (n - length it) JUndefined), drop n it))"
    by (intro parseResponseField_array_eq) simp_all
  then show ?thesis by (simp del: parseResponseField.simps)
qed

lemma reduceEntries_prefix:
  "reduceEntries depth reg xs it acc = Some (Inr (v, it')) \<Longrightarrow>
     \<exists>acc'. v = JObj acc' \<and> fst ` set acc' = fst ` set acc \<union> name ` set xs \<and>
       reduceEntries depth reg (xs @ ys) it acc = reduceEntries depth reg ys it' acc'"
proof (induction xs arbitrary: it acc)
  case Nil
  then show ?case by auto
next
  case (Cons m xs)
  from Cons.prems obtain w it1 where
    f: "parseResponseField depth reg (member_element m) it (Some acc) = Some (Inr (w, it1))"
    and r: "reduceEntries depth reg xs it1 (spread_set acc (name m) w) = Some (Inr (v, it'))"
    by (auto split: option.splits sum.splits)
  from Cons.IH[OF r] obtain acc' where
    "v = JObj acc'"
    "fst ` set acc' = fst ` set (spread_set acc (name m) w) \<union> name ` set xs"
    "reduceEntries depth reg (xs @ ys) it1 (spread_set acc (name m) w) =
       reduceEntries depth reg ys it' acc'"
    by blast
  with f show ?case by (auto simp: keys_spread_set)
qed

lemma reduceEntries_no_len:
  assumes "type m = ''felt*''"
    and "name m @ ''_len'' \<notin> name ` set pre"
    and "reduceEntries (Suc depth) reg pre it [] = Some (Inr (v, it'))"
  shows "reduceEntries (Suc depth) reg (pre @ m # post) it [] = Some (Inl ParseError)"
proof -
  from reduceEntries_prefix[OF assms(3), of "m # post"] obtain acc' where
    keys: "fst ` set acc' = name ` set pre"
    and eq: "reduceEntries (Suc depth) reg (pre @ m # post) it [] =
       reduceEntries (Suc depth) reg (m # post) it' acc'"
    by auto
  from keys assms(2) have "\<not> has_own acc' (name m @ ''_len'')"
    by (simp add: has_own_def)
  moreover have "type (member_element m) = ''felt*''" and "name (member_element m) = name m"
    using assms(1) by (simp_all add: member_element_def)
  ultimately have "parseResponseField (Suc depth) reg (member_element m) it' (Some acc') =
      Some (Inl ParseError)"
    by (intro parseResponseField_array_no_len) simp_all
  with eq show ?thesis by (simp del: parseResponseField.simps)
qed

section \<open>The claims on the decoder\<close>

text \<open>
  Claim C3, as stated: a field of type \<^verbatim>\<open>felt*\<close> takes the count \<open>n\<close> from its sibling
  \<^verbatim>\<open><name>_len\<close> and consumes exactly \<open>n\<close> further elements, so that the sibling after it
  starts \<open>n\<close> elements further on. With the count \<^verbatim>\<open>"2"\<close> and one element left, the field
  consumes that one element, its second entry is \<^verbatim>\<open>undefined\<close>, and the sibling after it
  finds no element.
\<close>

theorem parseResponse_array_short_counterexample:
  "parseResponse 2
     (new_Contract
        [FunctionAbi ''get_list'' []
           [\<lparr>name = ''data_len'', type = ''felt''\<rparr>, \<lparr>name = ''data'', type = ''felt*''\<rparr>,
            \<lparr>name = ''total'', type = ''felt''\<rparr>]
           (Some ''view'')] None)
     ''get_list'' [''2'', ''7''] =
   Some (Inr (JObj [(''data_len'', JStr ''2''), (''data'', JArr [JStr ''7'', JUndefined]),
                    (''total'', JUndefined)]))"
  by (simp add: decode_eval)

text \<open>
  Claim C3, amended: a field of type \<^verbatim>\<open>felt*\<close> reads the value of the sibling
  \<^verbatim>\<open><name>_len\<close> from the accumulator built so far at its level and takes it as the count
  \<open>n\<close>; when at least \<open>n\<close> elements of the response are left (the response being an array,
  of fewer than \<open>2 ^ 32\<close> elements), it consumes exactly \<open>n\<close> of them and returns them as
  a sequence in order, and the sibling that follows is decoded from the iterator
  advanced by exactly \<open>n\<close>, with the sequence stored under the field's name.
\<close>

theorem felt_array_consumes_count:
  "type m = ''felt*'' \<longrightarrow> toBN (get acc (name m @ ''_len'')) = Inr n \<longrightarrow>
   n \<le> length it \<longrightarrow> length it < 2 ^ 32 \<longrightarrow>
     parseResponseField (Suc depth) reg (member_element m) it (Some acc) =
       Some (Inr (JArr (map JStr (take n it)), drop n it))
     \<and> length (drop n it) = length it - n
     \<and> reduceEntries (Suc depth) reg (m # rest) it acc =
         reduceEntries (Suc depth) reg rest (drop n it)
           (spread_set acc (name m) (JArr (map JStr (take n it))))"
proof (intro impI conjI)
  assume t: "type m = ''felt*''" and n: "toBN (get acc (name m @ ''_len'')) = Inr n"
    and enough: "n \<le> length it" and array: "length it < 2 ^ 32"
  from enough array have small: "n < 2 ^ 32" by simp
  have "type (member_element m) = ''felt*''" and "name (member_element m) = name m"
    using t by (simp_all add: member_element_def)
  with n small have "parseResponseField (Suc depth) reg (member_element m) it (Some acc) =
       Some (Inr (JArr (map JStr (take n it) @ replicate (n - length it) JUndefined),
                  drop n it))"
    by (intro parseResponseField_array_eq) simp_all
  with enough show "parseResponseField (Suc depth) reg (member_element m) it (Some acc) =
       Some (Inr (JArr (map JStr (take n it)), drop n it))"
    by simp
  show "length (drop n it) = length it - n"
    by simp
  from t n small have "reduceEntries (Suc depth) reg (m # rest) it acc =
         reduceEntries (Suc depth) reg rest (drop n it)
           (spread_set acc (name m)
              (JArr (map JStr (take n it) @ replicate (n - length it) JUndefined)))"
    by (rule reduceEntries_Cons_felt_array)
  with enough show "reduceEntries (Suc depth) reg (m # rest) it acc =
         reduceEntries (Suc depth) reg rest (drop n it)
           (spread_set acc (name m) (JArr (map JStr (take n it))))"
    by simp
qed

theorem felt_array_consumes_count_witness:
  "type \<lparr>name = ''data'', type = ''felt*''\<rparr> = ''felt*''
   \<and> toBN (get [(''data_len'', JStr ''2'')] (name \<lparr>name = ''data'', type = ''felt*''\<rparr> @ ''_len'')) = Inr 2
   \<and> (2 :: nat) \<le> length [''7'', ''8'', ''9'']
   \<and> length [''7'', ''8'', ''9''] < (2 :: nat) ^ 32
   \<and> parseResponseField (Suc 0) [] (member_element \<lparr>name = ''data'', type = ''felt*''\<rparr>)
        [''7'', ''8'', ''9''] (Some [(''data_len'', JStr ''2'')]) =
       Some (Inr (JArr [JStr ''7'', JStr ''8''], [''9'']))
   \<and> reduceEntries (Suc 0) []
        [\<lparr>name = ''data'', type = ''felt*''\<rparr>, \<lparr>name = ''next'', type = ''felt''\<rparr>]
        [''7'', ''8'', ''9''] [(''data_len'', JStr ''2'')] =
       Some (Inr (JObj [(''data_len'', JStr ''2''), (''data'', JArr [JStr ''7'', JStr ''8'']),
                        (''next'', JStr ''9'')], []))"
proof -
  have h1: "type \<lparr>name = ''data'', type = ''felt*''\<rparr> = ''felt*''"
    by simp
  have h2: "toBN (get [(''data_len'', JStr ''2'')]
      (name \<lparr>name = ''data'', type = ''felt*''\<rparr> @ ''_len'')) = Inr 2"
    by (simp add: decode_eval)
  have h3: "(2 :: nat) \<le> length [''7'', ''8'', ''9'']"
    by simp
  have h4: "length [''7'', ''8'', ''9''] < (2 :: nat) ^ 32"
    by simp
  have h5: "reduceEntries (Suc 0) [] [\<lparr>name = ''next'', type = ''felt''\<rparr>] (drop 2 [''7'', ''8'', ''9''])
      (spread_set [(''data_len'', JStr ''2'')] (name \<lparr>name = ''data'', type = ''felt*''\<rparr>)
         (JArr (map JStr (take 2 [''7'', ''8'', ''9''])))) =
       Some (Inr (JObj [(''data_len'', JStr ''2''), (''data'', JArr [JStr ''7'', JStr ''8'']),
                        (''next'', JStr ''9'')], []))"
    by (simp add: decode_eval)
  have h6: "map JStr (take 2 [''7'', ''8'', ''9'']) = [JStr ''7'', JStr ''8'']"
    "drop 2 [''7'', ''8'', ''9''] = [''9'']"
    by simp_all
  from felt_array_consumes_count
    [of "\<lparr>name = ''data'', type = ''felt*''\<rparr>" "[(''data_len'', JStr ''2'')]" 2
        "[''7'', ''8'', ''9'']" 0 "[]" "[\<lparr>name = ''next'', type = ''felt''\<rparr>]"]
    h1 h2 h3 h4
  have "parseResponseField (Suc 0) [] (member_element \<lparr>name = ''data'', type = ''felt*''\<rparr>)
        [''7'', ''8'', ''9''] (Some [(''data_len'', JStr ''2'')]) =
       Some (Inr (JArr (map JStr (take 2 [''7'', ''8'', ''9''])), drop 2 [''7'', ''8'', ''9'']))"
    and "reduceEntries (Suc 0) []
        [\<lparr>name = ''data'', type = ''felt*''\<rparr>, \<lparr>name = ''next'', type = ''felt''\<rparr>]
        [''7'', ''8'', ''9''] [(''data_len'', JStr ''2'')] =
       reduceEntries (Suc 0) [] [\<lparr>name = ''next'', type = ''felt''\<rparr>] (drop 2 [''7'', ''8'', ''9''])
      (spread_set [(''data_len'', JStr ''2'')] (name \<lparr>name = ''data'', type = ''felt*''\<rparr>)
         (JArr (map JStr (take 2 [''7'', ''8'', ''9'']))))"
    by blast+
  with h1 h2 h3 h4 h5 h6 show ?thesis by (simp only:)
qed

text \<open>
  Claim C4, as stated: when the count \<open>n\<close> of a \<^verbatim>\<open>felt*\<close> field exceeds the number of
  elements left, decoding fails with an "unexpected end of response" error. The decoder
  has no such check (the test of \<^verbatim>\<open>itter.done\<close> is commented out): the response
  \<^verbatim>\<open>["3","7"]\<close> for the outputs \<^verbatim>\<open>data_len: felt, data: felt*\<close> is decoded without an
  error, into a sequence of three entries of which two are \<^verbatim>\<open>undefined\<close>.
\<close>

theorem parseResponse_short_response_counterexample:
  "parseResponse 2
     (new_Contract
        [\<lparr>name = ''get_data'', type = ''function'', inputs = Some [],
          outputs = Some [\<lparr>name = ''data_len'', type = ''felt''\<rparr>,
                          \<lparr>name = ''data'', type = ''felt*''\<rparr>],
          members = None, stateMutability = Some ''view''\<rparr>] None)
     ''get_data'' [''3'', ''7''] =
   Some (Inr (JObj [(''data_len'', JStr ''3''),
                    (''data'', JArr [JStr ''7'', JUndefined, JUndefined])]))"
  by (simp add: decode_eval)

text \<open>
  Claim C4, amended: when the count \<open>n\<close> of a \<^verbatim>\<open>felt*\<close> field exceeds the number of
  elements left and is below \<open>2 ^ 32\<close> (an array and \<^verbatim>\<open>toNumber\<close> can hold it), decoding
  the field does not fail; it returns a sequence of exactly \<open>n\<close> entries, the elements
  left in order followed by \<^verbatim>\<open>undefined\<close> for each missing one, and leaves the iterator
  exhausted.
\<close>

theorem felt_array_exhausted_pads:
  "type m = ''felt*'' \<longrightarrow> toBN (get acc (name m @ ''_len'')) = Inr n \<longrightarrow>
   length it < n \<longrightarrow> n < 2 ^ 32 \<longrightarrow>
     parseResponseField (Suc depth) reg (member_element m) it (Some acc) =
       Some (Inr (JArr (map JStr it @ replicate (n - length it) JUndefined), []))"
proof (intro impI)
  assume t: "type m = ''felt*''" and n: "toBN (get acc (name m @ ''_len'')) = Inr n"
    and short: "length it < n" and small: "n < 2 ^ 32"
  have "type (member_element m) = ''felt*''" and "name (member_element m) = name m"
    using t by (simp_all add: member_element_def)
  with n small have "parseResponseField (Suc depth) reg (member_element m) it (Some acc) =
       Some (Inr (JArr (map JStr (take n it) @ replicate (n - length it) JUndefined),
                  drop n it))"
    by (intro parseResponseField_array_eq) simp_all
  with short show "parseResponseField (Suc depth) reg (member_element m) it (Some acc) =
       Some (Inr (JArr (map JStr it @ replicate (n - length it) JUndefined), []))"
    by simp
qed

theorem felt_array_exhausted_pads_witness:
  "type \<lparr>name = ''data'', type = ''felt*''\<rparr> = ''felt*''
   \<and> toBN (get [(''data_len'', JStr ''0x3'')] (name \<lparr>name = ''data'', type = ''felt*''\<rparr> @ ''_len'')) = Inr 3
   \<and> length [''7''] < (3 :: nat)
   \<and> (3 :: nat) < 2 ^ 32
   \<and> parseResponseField (Suc 0) [] (member_element \<lparr>name = ''data'', type = ''felt*''\<rparr>)
        [''7''] (Some [(''data_len'', JStr ''0x3'')]) =
       Some (Inr (JArr [JStr ''7'', JUndefined, JUndefined], []))"
proof -
  have h1: "type \<lparr>name = ''data'', type = ''felt*''\<rparr> = ''felt*''"
    by simp
  have h2: "toBN (get [(''data_len'', JStr ''0x3'')]
      (name \<lparr>name = ''data'', type = ''felt*''\<rparr> @ ''_len'')) = Inr 3"
    by (simp add: decode_eval)
  have h3: "length [''7''] < (3 :: nat)"
    by simp
  have h4: "(3 :: nat) < 2 ^ 32"
    by simp
  have h5: "map JStr [''7''] @ replicate (3 - length [''7'']) JUndefined =
      [JStr ''7'', JUndefined, JUndefined]"
    by (simp add: numeral_3_eq_3)
  from felt_array_exhausted_pads
    [of "\<lparr>name = ''data'', type = ''felt*''\<rparr>" "[(''data_len'', JStr ''0x3'')]" 3
        "[''7'']" 0 "[]"]
    h1 h2 h3 h4
  have "parseResponseField (Suc 0) [] (member_element \<lparr>name = ''data'', type = ''felt*''\<rparr>)
        [''7''] (Some [(''data_len'', JStr ''0x3'')]) =
       Some (Inr (JArr (map JStr [''7''] @ replicate (3 - length [''7'']) JUndefined), []))"
    by blast
  with h1 h2 h3 h4 h5 show ?thesis by (simp only:)
qed

text \<open>
  Claim C7. When the fields \<open>pre\<close> decoded before a \<^verbatim>\<open>felt*\<close> field at its level do not
  include its companion \<^verbatim>\<open><name>_len\<close>, the companion is absent from the accumulator,
  the field fails with the normalizer's parse error, and so does the decoding of the
  whole list of fields: the length is not taken to be zero.
\<close>

theorem parseResponseField_missing_len:
  "type m = ''felt*'' \<longrightarrow> name m @ ''_len'' \<notin> name ` set pre \<longrightarrow>
   reduceEntries (Suc depth) reg pre it [] = Some (Inr (JObj acc, it')) \<longrightarrow>
     parseResponseField (Suc depth) reg (member_element m) it' (Some acc) = Some (Inl ParseError)
     \<and> reduceEntries (Suc depth) reg (pre @ m # post) it [] = Some (Inl ParseError)"
proof (intro impI conjI)
  assume t: "type m = ''felt*''" and absent: "name m @ ''_len'' \<notin> name ` set pre"
    and pre: "reduceEntries (Suc depth) reg pre it [] = Some (Inr (JObj acc, it'))"
  from reduceEntries_prefix[OF pre, of "[]"] have "fst ` set acc = name ` set pre"
    by auto
  with absent have "\<not> has_own acc (name m @ ''_len'')"
    by (simp add: has_own_def)
  moreover have "type (member_element m) = ''felt*''" and "name (member_element m) = name m"
    using t by (simp_all add: member_element_def)
  ultimately show "parseResponseField (Suc depth) reg (member_element m) it' (Some acc) =
      Some (Inl ParseError)"
    by (intro parseResponseField_array_no_len) simp_all
  from t absent pre show "reduceEntries (Suc depth) reg (pre @ m # post) it [] =
      Some (Inl ParseError)"
    by (rule reduceEntries_no_len)
qed

theorem parseResponseField_missing_len_witness:
  "type \<lparr>name = ''data'', type = ''felt*''\<rparr> = ''felt*''
   \<and> name \<lparr>name = ''data'', type = ''felt*''\<rparr> @ ''_len'' \<notin>
       name ` set [\<lparr>name = ''count'', type = ''felt''\<rparr>]
   \<and> reduceEntries (Suc 0) [] [\<lparr>name = ''count'', type = ''felt''\<rparr>] [''2'', ''5'', ''6''] [] =
       Some (Inr (JObj [(''count'', JStr ''2'')], [''5'', ''6'']))
   \<and> parseResponseField (Suc 0) [] (member_element \<lparr>name = ''data'', type = ''felt*''\<rparr>)
        [''5'', ''6''] (Some [(''count'', JStr ''2'')]) = Some (Inl ParseError)
   \<and> reduceEntries (Suc 0) []
        ([\<lparr>name = ''count'', type = ''felt''\<rparr>] @ \<lparr>name = ''data'', type = ''felt*''\<rparr> # [])
        [''2'', ''5'', ''6''] [] = Some (Inl ParseError)
   \<and> parseResponse 2
        (new_Contract
           [FunctionAbi ''get_data'' []
              [\<lparr>name = ''count'', type = ''felt''\<rparr>, \<lparr>name = ''data'', type = ''felt*''\<rparr>]
              (Some ''view'')] None)
        ''get_data'' [''2'', ''5'', ''6''] = Some (Inl ParseError)
   \<and> parseResponse 2
        (new_Contract
           [FunctionAbi ''get_data'' []
              [\<lparr>name = ''data'', type = ''felt*''\<rparr>, \<lparr>name = ''data_len'', type = ''felt''\<rparr>]
              (Some ''view'')] None)
        ''get_data'' [''5'', ''6'', ''2''] = Some (Inl ParseError)"
proof -
  have h1: "type \<lparr>name = ''data'', type = ''felt*''\<rparr> = ''felt*''"
    by simp
  have h2: "name \<lparr>name = ''data'', type = ''felt*''\<rparr> @ ''_len'' \<notin>
       name ` set [\<lparr>name = ''count'', type = ''felt''\<rparr>]"
    by simp
  have h3: "reduceEntries (Suc 0) [] [\<lparr>name = ''count'', type = ''felt''\<rparr>] [''2'', ''5'', ''6''] [] =
       Some (Inr (JObj [(''count'', JStr ''2'')], [''5'', ''6'']))"
    by (simp add: decode_eval)
  have t1: "parseResponse 2
        (new_Contract
           [FunctionAbi ''get_data'' []
              [\<lparr>name = ''count'', type = ''felt''\<rparr>, \<lparr>name = ''data'', type = ''felt*''\<rparr>]
              (Some ''view'')] None)
        ''get_data'' [''2'', ''5'', ''6''] = Some (Inl ParseError)"
    by (simp add: decode_eval)
  have t2: "parseResponse 2
        (new_Contract
           [FunctionAbi ''get_data'' []
              [\<lparr>name = ''data'', type = ''felt*''\<rparr>, \<lparr>name = ''data_len'', type = ''felt''\<rparr>]
              (Some ''view'')] None)
        ''get_data'' [''5'', ''6'', ''2''] = Some (Inl ParseError)"
    by (simp add: decode_eval)
  from parseResponseField_missing_len
    [of "\<lparr>name = ''data'', type = ''felt*''\<rparr>" "[\<lparr>name = ''count'', type = ''felt''\<rparr>]" 0 "[]"
        "[''2'', ''5'', ''6'']" "[(''count'', JStr ''2'')]" "[''5'', ''6'']" "[]"]
    h1 h2 h3 t1 t2
  show ?thesis by blast
qed

section \<open>The struct registry\<close>

lemma map_of_spread_set: "map_of (spread_set obj k v) = (map_of obj)(k \<mapsto> v)"
  by (induction obj k v rule: spread_set.induct) auto

lemma map_of_foldl_spread_set:
  "map_of (foldl (\<lambda>acc e. spread_set acc (name e) e) acc es) k =
     (case filter (\<lambda>e. name e = k) es of
        [] \<Rightarrow> map_of acc k
      | x # xs \<Rightarrow> Some (last (x # xs)))"
proof (induction es arbitrary: acc)
  case Nil
  then show ?case by simp
next
  case (Cons e es)
  show ?case
  proof (cases "name e = k")
    case True
    with Cons[of "spread_set acc (name e) e"] show ?thesis
      by (simp add: map_of_spread_set split: list.splits)
  next
    case False
    with Cons[of "spread_set acc (name e) e"] show ?thesis
      by (simp add: map_of_spread_set split: list.splits)
  qed
qed

text \<open>
  Claim C8. The constructor accepts every ABI list, and the struct registry maps a name
  to the last entry of type \<^verbatim>\<open>struct\<close> with that name in the list: when two or more
  struct entries share a name, the later one silently replaces the earlier one.
\<close>

theorem build_structs_last_wins:
  "map_of (structs (new_Contract entries address)) n =
     (case filter (\<lambda>e. type e = ''struct'' \<and> name e = n) entries of
        [] \<Rightarrow> None
      | e # es \<Rightarrow> Some (last (e # es)))"
proof -
  have "filter (\<lambda>e. name e = n) (filter (\<lambda>e. type e = ''struct'') entries) =
      filter (\<lambda>e. type e = ''struct'' \<and> name e = n) entries"
    by (simp add: conj_commute)
  then show ?thesis
    by (simp add: new_Contract_def build_structs_def map_of_foldl_spread_set split: list.splits)
qed

theorem build_structs_last_wins_witness:
  "map_of (structs (new_Contract
      [\<lparr>name = ''Point'', type = ''struct'', inputs = None, outputs = None,
        members = Some [\<lparr>name = ''x'', type = ''felt''\<rparr>], stateMutability = None\<rparr>,
       \<lparr>name = ''get'', type = ''function'', inputs = Some [],
        outputs = Some [\<lparr>name = ''p'', type = ''Point''\<rparr>], members = None,
        stateMutability = Some ''view''\<rparr>,
       \<lparr>name = ''Point'', type = ''struct'', inputs = None, outputs = None,
        members = Some [\<lparr>name = ''x'', type = ''felt''\<rparr>, \<lparr>name = ''y'', type = ''felt''\<rparr>],
        stateMutability = None\<rparr>] None)) ''Point'' =
   Some \<lparr>name = ''Point'', type = ''struct'', inputs = None, outputs = None,
        members = Some [\<lparr>name = ''x'', type = ''felt''\<rparr>, \<lparr>name = ''y'', type = ''felt''\<rparr>],
        stateMutability = None\<rparr>"
  using build_structs_last_wins
    [of "[\<lparr>name = ''Point'', type = ''struct'', inputs = None, outputs = None,
        members = Some [\<lparr>name = ''x'', type = ''felt''\<rparr>], stateMutability = None\<rparr>,
       \<lparr>name = ''get'', type = ''function'', inputs = Some [],
        outputs = Some [\<lparr>name = ''p'', type = ''Point''\<rparr>], members = None,
        stateMutability = Some ''view''\<rparr>,
       \<lparr>name = ''Point'', type = ''struct'', inputs = None, outputs = None,
        members = Some [\<lparr>name = ''x'', type = ''felt''\<rparr>, \<lparr>name = ''y'', type = ''felt''\<rparr>],
        stateMutability = None\<rparr>]" None "''Point''"]
  by simp

section \<open>The claims on the validator\<close>

lemma forEach_Inl: "forEach f xs = Inl e \<Longrightarrow> \<exists>x \<in> set xs. f x = Inl e"
  by (induction xs) (auto split: sum.splits)



lemma validateElement_error:
  "validateElement inputName p = Inl e \<Longrightarrow> \<exists>s. e = Error (''arg '' @ s)"
  by (cases p) (auto simp: validateElement_def assert_def split: sum.splits if_splits)

lemma validateInput_error:
  assumes "validateInput args input = Inl e"
  shows "\<exists>s. e = Error (''arg '' @ s)"
proof (cases "get args (name input)")
  case (JArr xs)
  with assms show ?thesis
    by (auto simp: validateInput_def assert_def Let_def split: if_splits
          dest!: forEach_Inl validateElement_error)
qed (use assms in \<open>auto simp: validateInput_def assert_def Let_def split: if_splits\<close>)

lemma not_found_message:
  "Error (''arg '' @ s) \<noteq>
     Error ((if t = INVOKE then ''invokeable'' else ''viewable'') @ '' method not found in abi'')"
  by simp

lemma callable_iff:
  "callable t a \<longleftrightarrow>
     type a = ''function'' \<and> ((stateMutability a = Some ''view'') = (t = CALL))"
  by (cases t) (auto simp: callable_def)

text \<open>
  Claim C6. The method is looked for among the entries of type \<^verbatim>\<open>function\<close> whose
  mutability matches the kind of call: a view function for a read-only call, a function
  that is not a view for an invocation. When every function entry with the method's
  name has the other mutability (in particular when there is none), validation fails
  with the "method not found" error of the call kind, whatever the arguments are; and
  when some function entry with the name matches, validation does not fail with that
  error.
\<close>

theorem validateMethodAndArgs_method_not_found:
  "(list_all (\<lambda>a. name a = method \<and> type a = ''function'' \<longrightarrow>
               (stateMutability a = Some ''view'') \<noteq> (t = CALL)) (abi this) \<longrightarrow>
      validateMethodAndArgs this t method args =
        Inl (Error ((if t = INVOKE then ''invokeable'' else ''viewable'') @
                    '' method not found in abi'')))
   \<and> (\<not> list_all (\<lambda>a. name a = method \<and> type a = ''function'' \<longrightarrow>
               (stateMutability a = Some ''view'') \<noteq> (t = CALL)) (abi this) \<longrightarrow>
      validateMethodAndArgs this t method args \<noteq>
        Inl (Error ((if t = INVOKE then ''invokeable'' else ''viewable'') @
                    '' method not found in abi'')))"
proof (intro conjI impI)
  assume "list_all (\<lambda>a. name a = method \<and> type a = ''function'' \<longrightarrow>
               (stateMutability a = Some ''view'') \<noteq> (t = CALL)) (abi this)"
  then have "method \<notin> set (map name (filter (callable t) (abi this)))"
    by (auto simp: list_all_iff callable_iff)
  then show "validateMethodAndArgs this t method args =
        Inl (Error ((if t = INVOKE then ''invokeable'' else ''viewable'') @
                    '' method not found in abi''))"
    by (simp add: validateMethodAndArgs_def assert_def)
next
  assume "\<not> list_all (\<lambda>a. name a = method \<and> type a = ''function'' \<longrightarrow>
               (stateMutability a = Some ''view'') \<noteq> (t = CALL)) (abi this)"
  then have found: "method \<in> set (map name (filter (callable t) (abi this)))"
    by (auto simp: list_all_iff callable_iff)
  show "validateMethodAndArgs this t method args \<noteq>
        Inl (Error ((if t = INVOKE then ''invokeable'' else ''viewable'') @
                    '' method not found in abi''))"
  proof
    assume bad: "validateMethodAndArgs this t method args =
        Inl (Error ((if t = INVOKE then ''invokeable'' else ''viewable'') @
                    '' method not found in abi''))"
    with found obtain methodAbi ins where
      "forEach (validateInput args) ins =
         Inl (Error ((if t = INVOKE then ''invokeable'' else ''viewable'') @
                     '' method not found in abi''))"
      by (auto simp: validateMethodAndArgs_def assert_def split: option.splits)
    then obtain input where "validateInput args input =
         Inl (Error ((if t = INVOKE then ''invokeable'' else ''viewable'') @
                     '' method not found in abi''))"
      by (blast dest: forEach_Inl)
    then obtain s where "Error ((if t = INVOKE then ''invokeable'' else ''viewable'') @
                     '' method not found in abi'') = Error (''arg '' @ s)"
      by (blast dest: validateInput_error)
    then show False using not_found_message[of s t] by simp
  qed
qed


theorem validateMethodAndArgs_method_not_found_witness:
  "list_all (\<lambda>a. name a = ''balance_of'' \<and> type a = ''function'' \<longrightarrow>
               (stateMutability a = Some ''view'') \<noteq> (INVOKE = CALL))
     (abi (new_Contract
        [StructAbi ''mint'' [\<lparr>name = ''x'', type = ''felt''\<rparr>],
         FunctionAbi ''balance_of'' [\<lparr>name = ''user'', type = ''felt''\<rparr>]
           [\<lparr>name = ''res'', type = ''felt''\<rparr>] (Some ''view''),
         FunctionAbi ''mint'' [\<lparr>name = ''recipient'', type = ''felt''\<rparr>,
           \<lparr>name = ''amount'', type = ''felt''\<rparr>] [] None] None))
   \<and> validateMethodAndArgs (new_Contract
        [StructAbi ''mint'' [\<lparr>name = ''x'', type = ''felt''\<rparr>],
         FunctionAbi ''balance_of'' [\<lparr>name = ''user'', type = ''felt''\<rparr>]
           [\<lparr>name = ''res'', type = ''felt''\<rparr>] (Some ''view''),
         FunctionAbi ''mint'' [\<lparr>name = ''recipient'', type = ''felt''\<rparr>,
           \<lparr>name = ''amount'', type = ''felt''\<rparr>] [] None] None)
        INVOKE ''balance_of'' [(''user'', JStr ''1'')] =
       Inl (Error ''invokeable method not found in abi'')
   \<and> validateMethodAndArgs (new_Contract
        [StructAbi ''mint'' [\<lparr>name = ''x'', type = ''felt''\<rparr>],
         FunctionAbi ''balance_of'' [\<lparr>name = ''user'', type = ''felt''\<rparr>]
           [\<lparr>name = ''res'', type = ''felt''\<rparr>] (Some ''view''),
         FunctionAbi ''mint'' [\<lparr>name = ''recipient'', type = ''felt''\<rparr>,
           \<lparr>name = ''amount'', type = ''felt''\<rparr>] [] None] None)
        CALL ''mint'' [] =
       Inl (Error ''viewable method not found in abi'')
   \<and> validateMethodAndArgs (new_Contract
        [StructAbi ''mint'' [\<lparr>name = ''x'', type = ''felt''\<rparr>],
         FunctionAbi ''balance_of'' [\<lparr>name = ''user'', type = ''felt''\<rparr>]
           [\<lparr>name = ''res'', type = ''felt''\<rparr>] (Some ''view''),
         FunctionAbi ''mint'' [\<lparr>name = ''recipient'', type = ''felt''\<rparr>,
           \<lparr>name = ''amount'', type = ''felt''\<rparr>] [] None] None)
        CALL ''balance_of'' [(''user'', JStr ''1'')] = Inr ()
   \<and> validateMethodAndArgs (new_Contract
        [StructAbi ''mint'' [\<lparr>name = ''x'', type = ''felt''\<rparr>],
         FunctionAbi ''balance_of'' [\<lparr>name = ''user'', type = ''felt''\<rparr>]
           [\<lparr>name = ''res'', type = ''felt''\<rparr>] (Some ''view''),
         FunctionAbi ''mint'' [\<lparr>name = ''recipient'', type = ''felt''\<rparr>,
           \<lparr>name = ''amount'', type = ''felt''\<rparr>] [] None] None)
        INVOKE ''mint'' [(''recipient'', JStr ''0x1''), (''amount'', JStr ''10'')] = Inr ()"
proof -
  let ?c = "new_Contract
        [StructAbi ''mint'' [\<lparr>name = ''x'', type = ''felt''\<rparr>],
         FunctionAbi ''balance_of'' [\<lparr>name = ''user'', type = ''felt''\<rparr>]
           [\<lparr>name = ''res'', type = ''felt''\<rparr>] (Some ''view''),
         FunctionAbi ''mint'' [\<lparr>name = ''recipient'', type = ''felt''\<rparr>,
           \<lparr>name = ''amount'', type = ''felt''\<rparr>] [] None] None"
  have h1: "list_all (\<lambda>a. name a = ''balance_of'' \<and> type a = ''function'' \<longrightarrow>
               (stateMutability a = Some ''view'') \<noteq> (INVOKE = CALL)) (abi ?c)"
    by (simp add: new_Contract_def FunctionAbi_def StructAbi_def)
  have h2: "list_all (\<lambda>a. name a = ''mint'' \<and> type a = ''function'' \<longrightarrow>
               (stateMutability a = Some ''view'') \<noteq> (CALL = CALL)) (abi ?c)"
    by (simp add: new_Contract_def FunctionAbi_def StructAbi_def)
  have c1: "validateMethodAndArgs ?c INVOKE ''balance_of'' [(''user'', JStr ''1'')] =
       Inl (Error ''invokeable method not found in abi'')"
    using validateMethodAndArgs_method_not_found
      [of "''balance_of''" INVOKE ?c "[(''user'', JStr ''1'')]"] h1
    by simp
  have c2: "validateMethodAndArgs ?c CALL ''mint'' [] =
       Inl (Error ''viewable method not found in abi'')"
    using validateMethodAndArgs_method_not_found [of "''mint''" CALL ?c "[]"] h2
    by simp
  have c3: "validateMethodAndArgs ?c CALL ''balance_of'' [(''user'', JStr ''1'')] = Inr ()"
    by code_simp
  have c4: "validateMethodAndArgs ?c INVOKE ''mint''
      [(''recipient'', JStr ''0x1''), (''amount'', JStr ''10'')] = Inr ()"
    by code_simp
  from h1 c1 c2 c3 c4 show ?thesis by (intro conjI)
qed





section \<open>Encoding and then decoding\<close>

lemma spread_set_new: "k \<notin> fst ` set obj \<Longrightarrow> spread_set obj k v = obj @ [(k, v)]"
  by (induction obj k v rule: spread_set.induct) auto

lemma compileCalldata_canonical:
  "length ks = length ss \<Longrightarrow> list_all (\<lambda>s. toFeltString (JStr s) = Inr s) ss \<Longrightarrow>
     compileCalldata (zip ks (map JStr ss)) = Inr ss"
proof (induction ks ss rule: list_induct2)
  case Nil
  then show ?case by (simp add: compileCalldata_Nil)
next
  case (Cons k ks s ss)
  then show ?case by (simp add: compileCalldata_Cons compileValue_def)
qed

lemma parseResponseField_felt:
  "type m = ''felt'' \<Longrightarrow>
     parseResponseField (Suc depth) reg (member_element m) it acc = Some (Inr (next_value it))"
  by (simp add: member_element_def)

lemma reduceEntries_felts:
  "list_all (\<lambda>i. type i = ''felt'') es \<Longrightarrow> length ss = length es \<Longrightarrow>
   distinct (map fst acc @ map name es) \<Longrightarrow>
     reduceEntries (Suc depth) reg es (ss @ rest) acc =
       Some (Inr (JObj (acc @ zip (map name es) (map JStr ss)), rest))"
proof (induction es arbitrary: ss acc)
  case Nil
  then show ?case by simp
next
  case (Cons m es)
  from Cons.prems(2) obtain s ss' where ss: "ss = s # ss'" and len: "length ss' = length es"
    by (cases ss) auto
  from Cons.prems(1) have felt: "type m = ''felt''" and rest: "list_all (\<lambda>i. type i = ''felt'') es"
    by simp_all
  from Cons.prems(3) have new: "name m \<notin> fst ` set acc"
    and dist: "distinct (map fst (acc @ [(name m, JStr s)]) @ map name es)"
    by auto
  have "reduceEntries (Suc depth) reg (m # es) (ss @ rest) acc =
      reduceEntries (Suc depth) reg es (ss' @ rest) (acc @ [(name m, JStr s)])"
    using felt new ss by (simp add: parseResponseField_felt spread_set_new del: parseResponseField.simps)
  also have "\<dots> = Some (Inr (JObj ((acc @ [(name m, JStr s)]) @ zip (map name es) (map JStr ss')), rest))"
    using rest len dist by (rule Cons.IH)
  finally show ?case using ss by simp
qed

lemma no_struct_named:
  "list_all (\<lambda>e. \<not> (type e = ''struct'' \<and> name e = n)) entries \<Longrightarrow>
     map_of (build_structs entries) n = None"
proof -
  assume "list_all (\<lambda>e. \<not> (type e = ''struct'' \<and> name e = n)) entries"
  then have "filter (\<lambda>e. name e = n) (filter (\<lambda>e. type e = ''struct'') entries) = []"
    by (auto simp: list_all_iff filter_empty_conv)
  then show ?thesis
    by (simp add: build_structs_def map_of_foldl_spread_set)
qed

text \<open>
  Claim C1, as stated: when a function's outputs have the shape of its inputs and the
  response is the encoded calldata, decoding gives back the arguments. Four instances
  where it does not: the encoder normalizes and the decoder does not, so the argument
  \<^verbatim>\<open>"0x10"\<close> comes back as \<^verbatim>\<open>"16"\<close>; the array \<^verbatim>\<open>["1","2"]\<close> supplied alone comes back
  together with its length field; supplied with its length field, the length is on the
  wire twice and the array is read one element early; a struct comes back without its
  \<^verbatim>\<open>type\<close> tag.
\<close>

theorem parseResponse_compileCalldata_counterexample:
  "compileCalldata [(''user'', JStr ''0x10'')] = Inr [''16'']
   \<and> parseResponse 2
       (new_Contract
          [FunctionAbi ''echo'' [\<lparr>name = ''user'', type = ''felt''\<rparr>]
             [\<lparr>name = ''user'', type = ''felt''\<rparr>] (Some ''view'')] None)
       ''echo'' [''16''] = Some (Inr (JObj [(''user'', JStr ''16'')]))
   \<and> JObj [(''user'', JStr ''16'')] \<noteq> JObj [(''user'', JStr ''0x10'')]
   \<and> compileCalldata [(''data'', JArr [JStr ''1'', JStr ''2''])] = Inr [''2'', ''1'', ''2'']
   \<and> parseResponse 2
       (new_Contract
          [FunctionAbi ''echo''
             [\<lparr>name = ''data_len'', type = ''felt''\<rparr>, \<lparr>name = ''data'', type = ''felt*''\<rparr>]
             [\<lparr>name = ''data_len'', type = ''felt''\<rparr>, \<lparr>name = ''data'', type = ''felt*''\<rparr>]
             (Some ''view'')] None)
       ''echo'' [''2'', ''1'', ''2''] =
       Some (Inr (JObj [(''data_len'', JStr ''2''), (''data'', JArr [JStr ''1'', JStr ''2''])]))
   \<and> JObj [(''data_len'', JStr ''2''), (''data'', JArr [JStr ''1'', JStr ''2''])] \<noteq>
       JObj [(''data'', JArr [JStr ''1'', JStr ''2''])]
   \<and> compileCalldata [(''data_len'', JStr ''2''), (''data'', JArr [JStr ''1'', JStr ''2''])] =
       Inr [''2'', ''2'', ''1'', ''2'']
   \<and> parseResponse 2
       (new_Contract
          [FunctionAbi ''echo''
             [\<lparr>name = ''data_len'', type = ''felt''\<rparr>, \<lparr>name = ''data'', type = ''felt*''\<rparr>]
             [\<lparr>name = ''data_len'', type = ''felt''\<rparr>, \<lparr>name = ''data'', type = ''felt*''\<rparr>]
             (Some ''view'')] None)
       ''echo'' [''2'', ''2'', ''1'', ''2''] =
       Some (Inr (JObj [(''data_len'', JStr ''2''), (''data'', JArr [JStr ''2'', JStr ''1''])]))
   \<and> JObj [(''data_len'', JStr ''2''), (''data'', JArr [JStr ''2'', JStr ''1''])] \<noteq>
       JObj [(''data_len'', JStr ''2''), (''data'', JArr [JStr ''1'', JStr ''2''])]
   \<and> compileCalldata
        [(''p'', JObj [(''type'', JStr ''struct''), (''x'', JStr ''1''), (''y'', JStr ''2'')])] =
       Inr [''1'', ''2'']
   \<and> parseResponse 3
       (new_Contract
          [StructAbi ''Point'' [\<lparr>name = ''x'', type = ''felt''\<rparr>, \<lparr>name = ''y'', type = ''felt''\<rparr>],
           FunctionAbi ''echo'' [\<lparr>name = ''p'', type = ''Point''\<rparr>]
             [\<lparr>name = ''p'', type = ''Point''\<rparr>] (Some ''view'')] None)
       ''echo'' [''1'', ''2''] =
       Some (Inr (JObj [(''p'', JObj [(''x'', JStr ''1''), (''y'', JStr ''2'')])]))
   \<and> JObj [(''p'', JObj [(''x'', JStr ''1''), (''y'', JStr ''2'')])] \<noteq>
       JObj [(''p'', JObj [(''type'', JStr ''struct''), (''x'', JStr ''1''), (''y'', JStr ''2'')])]"
proof -
  have c1: "compileCalldata [(''user'', JStr ''0x10'')] = Inr [''16'']"
    by code_simp
  have c2: "parseResponse 2
       (new_Contract
          [FunctionAbi ''echo'' [\<lparr>name = ''user'', type = ''felt''\<rparr>]
             [\<lparr>name = ''user'', type = ''felt''\<rparr>] (Some ''view'')] None)
       ''echo'' [''16''] = Some (Inr (JObj [(''user'', JStr ''16'')]))"
    by (simp add: decode_eval)
  have c3: "JObj [(''user'', JStr ''16'')] \<noteq> JObj [(''user'', JStr ''0x10'')]"
    by simp
  have c4: "compileCalldata [(''data'', JArr [JStr ''1'', JStr ''2''])] = Inr [''2'', ''1'', ''2'']"
    by code_simp
  have c5: "parseResponse 2
       (new_Contract
          [FunctionAbi ''echo''
             [\<lparr>name = ''data_len'', type = ''felt''\<rparr>, \<lparr>name = ''data'', type = ''felt*''\<rparr>]
             [\<lparr>name = ''data_len'', type = ''felt''\<rparr>, \<lparr>name = ''data'', type = ''felt*''\<rparr>]
             (Some ''view'')] None)
       ''echo'' [''2'', ''1'', ''2''] =
       Some (Inr (JObj [(''data_len'', JStr ''2''), (''data'', JArr [JStr ''1'', JStr ''2''])]))"
    by (simp add: decode_eval)
  have c6: "JObj [(''data_len'', JStr ''2''), (''data'', JArr [JStr ''1'', JStr ''2''])] \<noteq>
       JObj [(''data'', JArr [JStr ''1'', JStr ''2''])]"
    by simp
  have c7: "compileCalldata [(''data_len'', JStr ''2''), (''data'', JArr [JStr ''1'', JStr ''2''])] =
       Inr [''2'', ''2'', ''1'', ''2'']"
    by code_simp
  have c8: "parseResponse 2
       (new_Contract
          [FunctionAbi ''echo''
             [\<lparr>name = ''data_len'', type = ''felt''\<rparr>, \<lparr>name = ''data'', type = ''felt*''\<rparr>]
             [\<lparr>name = ''data_len'', type = ''felt''\<rparr>, \<lparr>name = ''data'', type = ''felt*''\<rparr>]
             (Some ''view'')] None)
       ''echo'' [''2'', ''2'', ''1'', ''2''] =
       Some (Inr (JObj [(''data_len'', JStr ''2''), (''data'', JArr [JStr ''2'', JStr ''1''])]))"
    by (simp add: decode_eval)
  have c9: "JObj [(''data_len'', JStr ''2''), (''data'', JArr [JStr ''2'', JStr ''1''])] \<noteq>
       JObj [(''data_len'', JStr ''2''), (''data'', JArr [JStr ''1'', JStr ''2''])]"
    by simp
  have c10: "compileCalldata
        [(''p'', JObj [(''type'', JStr ''struct''), (''x'', JStr ''1''), (''y'', JStr ''2'')])] =
       Inr [''1'', ''2'']"
    by code_simp
  have c11: "parseResponse 3
       (new_Contract
          [StructAbi ''Point'' [\<lparr>name = ''x'', type = ''felt''\<rparr>, \<lparr>name = ''y'', type = ''felt''\<rparr>],
           FunctionAbi ''echo'' [\<lparr>name = ''p'', type = ''Point''\<rparr>]
             [\<lparr>name = ''p'', type = ''Point''\<rparr>] (Some ''view'')] None)
       ''echo'' [''1'', ''2''] =
       Some (Inr (JObj [(''p'', JObj [(''x'', JStr ''1''), (''y'', JStr ''2'')])]))"
    by (simp add: decode_eval)
  have c12: "JObj [(''p'', JObj [(''x'', JStr ''1''), (''y'', JStr ''2'')])] \<noteq>
       JObj [(''p'', JObj [(''type'', JStr ''struct''), (''x'', JStr ''1''), (''y'', JStr ''2'')])]"
    by simp
  from c1 c2 c3 c4 c5 c6 c7 c8 c9 c10 c11 c12 show ?thesis by (intro conjI)
qed

text \<open>
  Claim C1, amended: let the first entry named \<open>f\<close> of the ABI be a function whose outputs
  are its inputs, all of type \<^verbatim>\<open>felt\<close> and with distinct names, in an ABI with no struct
  named \<^verbatim>\<open>function\<close>; let the arguments supply every input, in declaration order, as a
  string that normalization leaves unchanged (a decimal numeral as \<open>bn_toString\<close> writes
  it). Then the calldata is the list of these strings, and decoding it as the response
  of \<open>f\<close> returns the arguments, at every nesting bound of at least two.
\<close>

theorem parseResponse_compileCalldata_roundtrip:
  "find (\<lambda>a. name a = f) entries = Some (FunctionAbi f ins ins mut) \<longrightarrow>
   list_all (\<lambda>i. type i = ''felt'') ins \<longrightarrow>
   distinct (map name ins) \<longrightarrow>
   list_all (\<lambda>e. \<not> (type e = ''struct'' \<and> name e = ''function'')) entries \<longrightarrow>
   length ss = length ins \<longrightarrow>
   list_all (\<lambda>s. toFeltString (JStr s) = Inr s) ss \<longrightarrow>
     compileCalldata (zip (map name ins) (map JStr ss)) = Inr ss
     \<and> parseResponse (Suc (Suc depth)) (new_Contract entries address) f ss =
         Some (Inr (JObj (zip (map name ins) (map JStr ss))))"
proof (intro impI conjI)
  assume f: "find (\<lambda>a. name a = f) entries = Some (FunctionAbi f ins ins mut)"
    and felts: "list_all (\<lambda>i. type i = ''felt'') ins"
    and dist: "distinct (map name ins)"
    and nostruct: "list_all (\<lambda>e. \<not> (type e = ''struct'' \<and> name e = ''function'')) entries"
    and len: "length ss = length ins"
    and canon: "list_all (\<lambda>s. toFeltString (JStr s) = Inr s) ss"
  from len canon show "compileCalldata (zip (map name ins) (map JStr ss)) = Inr ss"
    by (intro compileCalldata_canonical) simp_all
  have "map_of (build_structs entries) ''function'' = None"
    using nostruct by (rule no_struct_named)
  then have reg: "\<not> has_key (build_structs entries) ''function''"
    by (simp add: has_key_def has_own_def prototype_names_def map_of_eq_None_iff)
  have "reduceEntries (Suc depth) (build_structs entries) ins (ss @ []) [] =
      Some (Inr (JObj ([] @ zip (map name ins) (map JStr ss)), []))"
    using felts len dist by (intro reduceEntries_felts) simp_all
  then have "parseResponseField (Suc (Suc depth)) (build_structs entries)
      (FunctionAbi f ins ins mut) ss None =
      Some (Inr (JObj (zip (map name ins) (map JStr ss)), []))"
    using reg by (simp add: FunctionAbi_def)
  with f show "parseResponse (Suc (Suc depth)) (new_Contract entries address) f ss =
         Some (Inr (JObj (zip (map name ins) (map JStr ss))))"
    by (simp add: parseResponse_def new_Contract_def)
qed


theorem parseResponse_compileCalldata_roundtrip_witness:
  "find (\<lambda>a. name a = ''transfer'')
     [FunctionAbi ''transfer''
        [\<lparr>name = ''to'', type = ''felt''\<rparr>, \<lparr>name = ''amount'', type = ''felt''\<rparr>]
        [\<lparr>name = ''to'', type = ''felt''\<rparr>, \<lparr>name = ''amount'', type = ''felt''\<rparr>] None] =
     Some (FunctionAbi ''transfer''
        [\<lparr>name = ''to'', type = ''felt''\<rparr>, \<lparr>name = ''amount'', type = ''felt''\<rparr>]
        [\<lparr>name = ''to'', type = ''felt''\<rparr>, \<lparr>name = ''amount'', type = ''felt''\<rparr>] None)
   \<and> list_all (\<lambda>i. type i = ''felt'')
       [\<lparr>name = ''to'', type = ''felt''\<rparr>, \<lparr>name = ''amount'', type = ''felt''\<rparr>]
   \<and> distinct (map name [\<lparr>name = ''to'', type = ''felt''\<rparr>, \<lparr>name = ''amount'', type = ''felt''\<rparr>])
   \<and> list_all (\<lambda>e. \<not> (type e = ''struct'' \<and> name e = ''function''))
       [FunctionAbi ''transfer''
          [\<lparr>name = ''to'', type = ''felt''\<rparr>, \<lparr>name = ''amount'', type = ''felt''\<rparr>]
          [\<lparr>name = ''to'', type = ''felt''\<rparr>, \<lparr>name = ''amount'', type = ''felt''\<rparr>] None]
   \<and> length [''16'', ''0''] =
       length [\<lparr>name = ''to'', type = ''felt''\<rparr>, \<lparr>name = ''amount'', type = ''felt''\<rparr>]
   \<and> list_all (\<lambda>s. toFeltString (JStr s) = Inr s) [''16'', ''0'']
   \<and> compileCalldata [(''to'', JStr ''16''), (''amount'', JStr ''0'')] = Inr [''16'', ''0'']
   \<and> parseResponse (Suc (Suc 0))
       (new_Contract
          [FunctionAbi ''transfer''
             [\<lparr>name = ''to'', type = ''felt''\<rparr>, \<lparr>name = ''amount'', type = ''felt''\<rparr>]
             [\<lparr>name = ''to'', type = ''felt''\<rparr>, \<lparr>name = ''amount'', type = ''felt''\<rparr>] None]
          None)
       ''transfer'' [''16'', ''0''] =
       Some (Inr (JObj [(''to'', JStr ''16''), (''amount'', JStr ''0'')]))"
proof -
  let ?ins = "[\<lparr>name = ''to'', type = ''felt''\<rparr>, \<lparr>name = ''amount'', type = ''felt''\<rparr>]"
  let ?f = "FunctionAbi ''transfer'' ?ins ?ins None"
  have h1: "find (\<lambda>a. name a = ''transfer'') [?f] = Some ?f"
    by (simp add: FunctionAbi_def)
  have h2: "list_all (\<lambda>i. type i = ''felt'') ?ins"
    by simp
  have h3: "distinct (map name ?ins)"
    by simp
  have h4: "list_all (\<lambda>e. \<not> (type e = ''struct'' \<and> name e = ''function'')) [?f]"
    by (simp add: FunctionAbi_def)
  have h5: "length [''16'', ''0''] = length ?ins"
    by simp
  have h6: "list_all (\<lambda>s. toFeltString (JStr s) = Inr s) [''16'', ''0'']"
    by code_simp
  have z: "zip (map name ?ins) (map JStr [''16'', ''0'']) =
      [(''to'', JStr ''16''), (''amount'', JStr ''0'')]"
    by simp
  from parseResponse_compileCalldata_roundtrip
    [of "''transfer''" "[?f]" ?ins None "[''16'', ''0'']" 0 None]
    h1 h2 h3 h4 h5 h6
  have "compileCalldata (zip (map name ?ins) (map JStr [''16'', ''0''])) = Inr [''16'', ''0'']"
    and "parseResponse (Suc (Suc 0)) (new_Contract [?f] None) ''transfer'' [''16'', ''0''] =
      Some (Inr (JObj (zip (map name ?ins) (map JStr [''16'', ''0'']))))"
    by blast+
  then have c1: "compileCalldata [(''to'', JStr ''16''), (''amount'', JStr ''0'')] =
      Inr [''16'', ''0'']"
    and c2: "parseResponse (Suc (Suc 0)) (new_Contract [?f] None) ''transfer'' [''16'', ''0''] =
      Some (Inr (JObj [(''to'', JStr ''16''), (''amount'', JStr ''0'')]))"
    by (simp_all only: z)
  from h1 h2 h3 h4 h5 h6 c1 c2 show ?thesis by (intro conjI)
qed

end
